theory Spec2Isabelle
  imports Complex_Main "HOL-Library.Sublist"
begin

chapter \<open>Document retrieval and report synthesis: the server of the Rights-Mapper\<close>

text \<open>
  The development follows the server sources: \<^verbatim>\<open>server/services/pdfProcessor.ts\<close>,
  \<^verbatim>\<open>server/services/embeddingsService.ts\<close>, \<^verbatim>\<open>server/services/vectorSearch.ts\<close>,
  \<^verbatim>\<open>shared/schema.ts\<close>, \<^verbatim>\<open>server/storage.ts\<close> and the route handlers of
  \<^verbatim>\<open>registerRoutes\<close>. The first part is the model, one section per source file; the
  second part holds the properties.

  Conventions of the embedding.
  \<^item> A JavaScript string is a \<open>string\<close>: one \<open>char\<close> per code unit, \<open>length\<close> is
    \<^verbatim>\<open>.length\<close>. Only code units below 256 are represented.
  \<^item> Sizes, offsets and bounds that the source keeps in a \<^verbatim>\<open>number\<close> are \<open>int\<close>, or
    \<open>nat\<close> where the source only counts up from zero. In the search, vector components
    and similarity scores are real numbers: the rounding of the floating-point operations
    is not part of the model, and no statement below depends on it. In the cache file,
    where the values of a double that are no real number matter, a component is a
    \<open>double\<close>.
  \<^item> A \<^verbatim>\<open>throw\<close> (or a rejected promise) is the \<open>Inl\<close> branch of a sum. A loop whose
    end is not evident has its termination proved, or is a partial function into
    \<open>option\<close>.
  \<^item> What the process reads from outside (the directory listing, the text of a PDF, the
    answers of the embedding and completion services, the clock, fresh identifiers) is
    an argument of the function that reads it.
  \<^item> Fields of the records keep the names of the source behind a short prefix (\<open>c_\<close>
    for a chunk, \<open>e_\<close> for an embedding record, \<open>r_\<close> for a search result, and so
    on), since several interfaces of the source share field names. Names of the source
    that are reserved words here are avoided in the same way.
\<close>

section \<open>Operations of the runtime\<close>

text \<open>
  \<^verbatim>\<open>String.prototype.slice\<close> and \<^verbatim>\<open>Array.prototype.slice\<close>: a negative bound counts from
  the end, both bounds are clamped to the length, and an empty range gives the empty
  sequence. Reading an array beyond its end gives \<^verbatim>\<open>undefined\<close>, here \<open>None\<close>.
\<close>

definition js_slice :: "'a list \<Rightarrow> int \<Rightarrow> int \<Rightarrow> 'a list" where
  "js_slice xs start end' =
     (let len = int (length xs);
          from = (if start < 0 then max (len + start) 0 else min start len);
          to = (if end' < 0 then max (len + end') 0 else min end' len)
      in take (nat (to - from)) (drop (nat from) xs))"

definition js_index :: "'a list \<Rightarrow> nat \<Rightarrow> 'a option" where
  "js_index xs j = (if j < length xs then Some (xs ! j) else None)"

text \<open>
  White space as \<^verbatim>\<open>String.prototype.trim\<close> sees it (tab, line feed, vertical tab, form
  feed, carriage return, space, no-break space), \<^verbatim>\<open>toLowerCase\<close> on the Latin capital
  letters, and the two prefix tests.
\<close>

definition is_js_space :: "char \<Rightarrow> bool" where
  "is_js_space c = (of_char c \<in> {9, 10, 11, 12, 13, 32, 160 :: nat})"

definition js_trim :: "string \<Rightarrow> string" where
  "js_trim s = rev (dropWhile is_js_space (rev (dropWhile is_js_space s)))"

definition toLowerCase :: "string \<Rightarrow> string" where
  "toLowerCase s =
     map (\<lambda>c. if 65 \<le> (of_char c :: nat) \<and> (of_char c :: nat) \<le> 90
                then char_of (of_char c + 32 :: nat) else c) s"

definition endsWith :: "string \<Rightarrow> string \<Rightarrow> bool" where
  "endsWith s suf = suffix suf s"

definition startsWith :: "string \<Rightarrow> string \<Rightarrow> bool" where
  "startsWith s pre = prefix pre s"

text \<open>
  \<^verbatim>\<open>Array.prototype.join\<close>, the idiom \<^verbatim>\<open>value || fallback\<close> on an optional string (an
  absent and an empty string both give the fallback), and the spread of an optional
  property over an existing one.
\<close>

fun js_join :: "string \<Rightarrow> string list \<Rightarrow> string" where
  "js_join sep [] = []"
| "js_join sep [x] = x"
| "js_join sep (x # y # ys) = x @ sep @ js_join sep (y # ys)"

definition js_or :: "string option \<Rightarrow> string \<Rightarrow> string" where
  "js_or value' fallback =
     (case value' of None \<Rightarrow> fallback | Some s \<Rightarrow> if s = [] then fallback else s)"

definition js_spread :: "'a \<Rightarrow> 'a option \<Rightarrow> 'a" where
  "js_spread old new = (case new of None \<Rightarrow> old | Some v \<Rightarrow> v)"

text \<open>
The decimal numeral of a counter, as a template literal prints it.
\<close>

definition digit :: "nat \<Rightarrow> char" where
  "digit d = ''0123456789'' ! d"

fun string_of_nat :: "nat \<Rightarrow> string" where
  "string_of_nat n =
     (if n < 10 then [digit n] else string_of_nat (n div 10) @ [digit (n mod 10)])"

declare string_of_nat.simps [simp del]

text \<open>
  A similarity score is a number or \<^verbatim>\<open>NaN\<close>. Comparisons with \<^verbatim>\<open>NaN\<close> are false and
  arithmetic with \<^verbatim>\<open>NaN\<close> gives \<^verbatim>\<open>NaN\<close>.
\<close>

datatype jsnum = NaN | Num real

fun js_ge :: "jsnum \<Rightarrow> jsnum \<Rightarrow> bool" where
  "js_ge (Num x) (Num y) = (x \<ge> y)"
| "js_ge _ _ = False"

fun js_sub :: "jsnum \<Rightarrow> jsnum \<Rightarrow> jsnum" where
  "js_sub (Num x) (Num y) = Num (x - y)"
| "js_sub _ _ = NaN"

fun js_positive :: "jsnum \<Rightarrow> bool" where
  "js_positive (Num x) = (x > 0)"
| "js_positive NaN = False"

text \<open>
  \<^verbatim>\<open>Array.prototype.sort\<close> with a comparison function is stable: an element moves behind
  another one only when the comparison of the two is positive; a result that is zero,
  negative or \<^verbatim>\<open>NaN\<close> keeps the order in which the two came. The model is the
  insertion sort that has this property.
\<close>

fun js_insert :: "('a \<Rightarrow> 'a \<Rightarrow> jsnum) \<Rightarrow> 'a \<Rightarrow> 'a list \<Rightarrow> 'a list" where
  "js_insert cmp x [] = [x]"
| "js_insert cmp x (y # ys) =
     (if js_positive (cmp x y) then y # js_insert cmp x ys else x # y # ys)"

definition js_sort :: "('a \<Rightarrow> 'a \<Rightarrow> jsnum) \<Rightarrow> 'a list \<Rightarrow> 'a list" where
  "js_sort cmp xs = foldr (js_insert cmp) xs []"

text \<open>
  The exceptions that occur in the modelled code (\<open>RangeError\<close> is the \<^verbatim>\<open>Invalid array length\<close>
  that \<^verbatim>\<open>push\<close> throws on an array that cannot grow), and \<^verbatim>\<open>Array.prototype.map\<close> (or
  \<^verbatim>\<open>Promise.all\<close> over a mapped array) with a callback that may throw: the first
  failure ends the whole call.
\<close>

datatype error = ApiFailure | TypeError | SyntaxError | LengthMismatch | RangeError

fun map_throwing :: "('a \<Rightarrow> error + 'b) \<Rightarrow> 'a list \<Rightarrow> error + 'b list" where
  "map_throwing f [] = Inr []"
| "map_throwing f (x # xs) =
     (case f x of
        Inl err \<Rightarrow> Inl err
      | Inr y \<Rightarrow> (case map_throwing f xs of Inl err \<Rightarrow> Inl err | Inr ys \<Rightarrow> Inr (y # ys)))"

text \<open>
  A number of the runtime is a double: negative zero, \<^verbatim>\<open>NaN\<close>, an infinity, or any other
  value, which is identified with the real number it denotes (\<open>Finite 0\<close> is positive zero).
\<close>

datatype double = Finite real | NegativeZero | NotANumber | PlusInfinity | MinusInfinity

text \<open>
  Values produced by \<^verbatim>\<open>JSON.parse\<close>. In an object a later occurrence of a key wins.
  Reading a property of a value that is not an object gives \<^verbatim>\<open>undefined\<close>; reading a
  property of \<^verbatim>\<open>null\<close> throws, which the callers below handle before they read.
\<close>

datatype json =
  JNull | JBool bool | JNum double | JStr string | JArr "json list" | JObj "(string \<times> json) list"

fun js_truthy :: "json \<Rightarrow> bool" where
  "js_truthy JNull = False"
| "js_truthy (JBool b) = b"
| "js_truthy (JNum x) = (x \<noteq> Finite 0 \<and> x \<noteq> NegativeZero \<and> x \<noteq> NotANumber)"
| "js_truthy (JStr s) = (s \<noteq> [])"
| "js_truthy (JArr xs) = True"
| "js_truthy (JObj kvs) = True"

fun js_get :: "json \<Rightarrow> string \<Rightarrow> json option" where
  "js_get (JObj kvs) key = map_of (rev kvs) key"
| "js_get _ key = None"

definition js_or_empty_array :: "json option \<Rightarrow> json" where
  "js_or_empty_array value' =
     (case value' of None \<Rightarrow> JArr [] | Some v \<Rightarrow> if js_truthy v then v else JArr [])"

text \<open>
  \<^verbatim>\<open>JSON.stringify\<close> writes \<^verbatim>\<open>NaN\<close> and the infinities as \<^verbatim>\<open>null\<close> and negative zero as
  \<^verbatim>\<open>0\<close>; every other number it writes as the shortest numeral that denotes it, which
  \<^verbatim>\<open>JSON.parse\<close> reads back as the same number. \<open>JSON_number x\<close> is the value that
  \<^verbatim>\<open>JSON.parse\<close> reads from the text that \<^verbatim>\<open>JSON.stringify\<close> writes for the number \<open>x\<close>.
  A string is written with escapes that \<^verbatim>\<open>JSON.parse\<close> undoes, and a property whose value
  is \<^verbatim>\<open>undefined\<close> is not written.
\<close>

fun JSON_number :: "double \<Rightarrow> json" where
  "JSON_number (Finite r) = JNum (Finite r)"
| "JSON_number NegativeZero = JNum (Finite 0)"
| "JSON_number NotANumber = JNull"
| "JSON_number PlusInfinity = JNull"
| "JSON_number MinusInfinity = JNull"

text \<open>
  The properties that an object spread \<^verbatim>\<open>{...v}\<close> copies from a value: those of an
  object, the elements of an array and the characters of a string under their indices,
  and none of a number, a boolean or \<^verbatim>\<open>null\<close>.
\<close>

fun own_properties :: "json \<Rightarrow> (string \<times> json) list" where
  "own_properties (JObj kvs) = kvs"
| "own_properties (JArr xs) = zip (map string_of_nat [0..<length xs]) xs"
| "own_properties (JStr s) = zip (map string_of_nat [0..<length s]) (map (\<lambda>c. JStr [c]) s)"
| "own_properties _ = []"

text \<open>
  The module \<^verbatim>\<open>path\<close>, in two views. Where the source only joins a directory with
  the names found below it and takes relative paths, a path is the list of its segments:
  \<^verbatim>\<open>path.join(dir, name)\<close> appends a segment, \<^verbatim>\<open>path.relative\<close> drops the common
  prefix and climbs out of the rest, \<^verbatim>\<open>path.basename\<close> is the last segment and
  \<^verbatim>\<open>split(path.sep)\<close> is the list itself.
\<close>

type_synonym path = "string list"

definition path_relative :: "path \<Rightarrow> path \<Rightarrow> path" where
  "path_relative from to =
     (let k = length (longest_common_prefix from to)
      in replicate (length from - k) ''..'' @ drop k to)"

definition basename :: "path \<Rightarrow> string" where
  "basename p = (if p = [] then [] else last p)"

text \<open>
  Where the source compares paths as strings, the POSIX functions are modelled on
  strings: \<^verbatim>\<open>path.normalize\<close> removes empty and \<^verbatim>\<open>.\<close> segments and resolves \<^verbatim>\<open>..\<close>
  against the segment before it, \<^verbatim>\<open>path.join\<close> joins the non-empty arguments with a
  slash and normalises.
\<close>

fun split_path :: "string \<Rightarrow> string list" where
  "split_path [] = [] # []"
| "split_path (c # cs) =
     (if c = CHR ''/'' then [] # split_path cs
      else (case split_path cs of seg # segs \<Rightarrow> (c # seg) # segs | [] \<Rightarrow> [c] # []))"

fun normalizeString :: "bool \<Rightarrow> string list \<Rightarrow> string list \<Rightarrow> string list" where
  "normalizeString allowAboveRoot res [] = res"
| "normalizeString allowAboveRoot res (seg # segs) =
     (if seg = [] \<or> seg = ''.'' then normalizeString allowAboveRoot res segs
      else if seg = ''..''
      then (if res \<noteq> [] \<and> last res \<noteq> ''..''
            then normalizeString allowAboveRoot (butlast res) segs
            else if allowAboveRoot then normalizeString allowAboveRoot (res @ [''..'']) segs
            else normalizeString allowAboveRoot res segs)
      else normalizeString allowAboveRoot (res @ [seg]) segs)"

definition posix_normalize :: "string \<Rightarrow> string" where
  "posix_normalize p =
     (if p = [] then ''.''
      else
        let isAbsolute = (hd p = CHR ''/'');
            trailingSeparator = (last p = CHR ''/'');
            body = js_join ''/'' (normalizeString (\<not> isAbsolute) [] (split_path p))
        in if body = []
           then (if isAbsolute then ''/'' else if trailingSeparator then ''./'' else ''.'')
           else (if isAbsolute then ''/'' else []) @ body
                  @ (if trailingSeparator then ''/'' else []))"

definition posix_join :: "string list \<Rightarrow> string" where
  "posix_join args =
     (let joined = js_join ''/'' (filter (\<lambda>arg. arg \<noteq> []) args)
      in if joined = [] then ''.'' else posix_normalize joined)"

section \<open>pdfProcessor.ts\<close>

record PDFChunk =
  c_id :: string
  c_filename :: string
  c_filepath :: path
  c_country :: string
  c_pageNumber :: int
  c_text :: string
  c_chunkIndex :: nat

definition CHUNK_SIZE :: int where
  "CHUNK_SIZE = 1000"

definition CHUNK_OVERLAP :: int where
  "CHUNK_OVERLAP = 200"

text \<open>
  The directory below the corpus root, as \<^verbatim>\<open>readdirSync\<close> with file types shows it.
  \<open>Other\<close> is an entry that is neither a file nor a directory. A root that does not
  exist is the listing \<open>None\<close>.
\<close>

datatype entry = File string | Dir string "entry list" | Other string

fun findPDFFiles_in :: "path \<Rightarrow> entry list \<Rightarrow> path list"
  and findPDFFiles_entry :: "path \<Rightarrow> entry \<Rightarrow> path list" where
  "findPDFFiles_in dir [] = []"
| "findPDFFiles_in dir (entry # entries) =
     findPDFFiles_entry dir entry @ findPDFFiles_in dir entries"
| "findPDFFiles_entry dir (Dir name sub) = findPDFFiles_in (dir @ [name]) sub"
| "findPDFFiles_entry dir (File name) =
     (if endsWith (toLowerCase name) ''.pdf'' then [dir @ [name]] else [])"
| "findPDFFiles_entry dir (Other name) = []"

definition findPDFFiles :: "path \<Rightarrow> entry list option \<Rightarrow> path list" where
  "findPDFFiles dir listing =
     (case listing of None \<Rightarrow> [] | Some entries \<Rightarrow> findPDFFiles_in dir entries)"

text \<open>
  The text extraction is the capability \<^verbatim>\<open>pdf-parse\<close>: for a path it yields the text and
  the number of pages, or fails. \<^verbatim>\<open>extractTextFromPDF\<close> turns a failure into the empty
  text.
\<close>

datatype pdf_parse = ParseFailure | ParseResult string nat

definition extractTextFromPDF :: "(path \<Rightarrow> pdf_parse) \<Rightarrow> path \<Rightarrow> string \<times> nat" where
  "extractTextFromPDF pdf filepath =
     (case pdf filepath of
        ParseFailure \<Rightarrow> ([], 0)
      | ParseResult t numPages \<Rightarrow> (t, numPages))"

text \<open>
  \<^verbatim>\<open>chunkText\<close> is a \<^verbatim>\<open>while\<close> loop over \<^verbatim>\<open>start\<close> that pushes one chunk per round. The
  source has no check and no \<^verbatim>\<open>throw\<close> of its own; the only way out of the loop other
  than \<^verbatim>\<open>start >= text.length\<close> is the exception of \<^verbatim>\<open>push\<close> when the array of chunks
  cannot grow any more.

  The first model makes the capacity of an array explicit: \<open>capacity\<close> is the number of
  elements that the engine lets the array hold, and a \<^verbatim>\<open>push\<close> on a full array throws
  \<^verbatim>\<open>RangeError: Invalid array length\<close>. Every round pushes, so the loop ends for every
  input.
\<close>

function chunkText_bounded_loop ::
  "nat \<Rightarrow> string \<Rightarrow> int \<Rightarrow> int \<Rightarrow> int \<Rightarrow> string list \<Rightarrow> error + string list" where
  "chunkText_bounded_loop capacity text chunkSize overlap start chunks =
     (if start < int (length text)
      then (if capacity \<le> length chunks then Inl RangeError
            else chunkText_bounded_loop capacity text chunkSize overlap
                   (start + (chunkSize - overlap))
                   (chunks @ [js_slice text start (min (start + chunkSize) (int (length text)))]))
      else Inr chunks)"
  by pat_completeness auto
termination
  by (relation "measure (\<lambda>(capacity, text, chunkSize, overlap, start, chunks).
                           capacity - length chunks)") auto

definition chunkText_bounded :: "nat \<Rightarrow> string \<Rightarrow> int \<Rightarrow> int \<Rightarrow> error + string list" where
  "chunkText_bounded capacity text chunkSize overlap =
     chunkText_bounded_loop capacity text chunkSize overlap 0 []"

text \<open>
  The second model leaves the capacity out, as the rest of this development does for
  every array: \<open>chunkText_loop\<close> is the loop on an array that never fills, a partial
  function, and a run that never leaves the loop is a run that fills the array, whatever
  its capacity, and ends with the exception of \<^verbatim>\<open>push\<close>. The two models agree for every
  capacity that holds the chunks of a run that ends by itself, and both throw where the
  loop makes no progress (\<open>chunkText_bounded_agrees\<close> and \<open>chunkText_bounded_overflows\<close>
  below).
\<close>

partial_function (option) chunkText_loop ::
  "string \<Rightarrow> int \<Rightarrow> int \<Rightarrow> int \<Rightarrow> string list \<Rightarrow> string list option" where
  "chunkText_loop text chunkSize overlap start chunks =
     (if start < int (length text)
      then chunkText_loop text chunkSize overlap (start + (chunkSize - overlap))
             (chunks @ [js_slice text start (min (start + chunkSize) (int (length text)))])
      else Some chunks)"

declare chunkText_loop.simps [code]

definition chunkText :: "string \<Rightarrow> int \<Rightarrow> int \<Rightarrow> error + string list" where
  "chunkText text chunkSize overlap =
     (case chunkText_loop text chunkSize overlap 0 [] of
        Some chunks \<Rightarrow> Inr chunks
      | None \<Rightarrow> Inl RangeError)"

text \<open>
  The page estimate \<^verbatim>\<open>Math.max(1, Math.ceil(charPosition / charsPerPage))\<close>, in exact
  arithmetic. With no pages the source divides by \<^verbatim>\<open>Infinity\<close> and the estimate is 1.
\<close>

definition estimatedPage :: "nat \<Rightarrow> nat \<Rightarrow> nat \<Rightarrow> int" where
  "estimatedPage textLength numPages i =
     (let charPosition = int i * (CHUNK_SIZE - CHUNK_OVERLAP)
      in if numPages = 0 then 1
         else max 1 \<lceil>real_of_int charPosition / (real textLength / real numPages)\<rceil>)"

text \<open>
  \<^verbatim>\<open>processPDFs\<close>: the outer loop over the files carries the list of chunks and the
  counter \<^verbatim>\<open>chunkIdCounter\<close>; the inner loop pushes one chunk per text segment and
  increments the counter. The result \<open>None\<close> stands for a call that does not return
  the list, because the exception of \<^verbatim>\<open>chunkText\<close> leaves it.
\<close>

definition chunkIdOf :: "nat \<Rightarrow> string" where
  "chunkIdOf chunkIdCounter = ''chunk_'' @ string_of_nat chunkIdCounter"

definition newChunk ::
  "string \<Rightarrow> path \<Rightarrow> string \<Rightarrow> nat \<Rightarrow> nat \<Rightarrow> string list \<Rightarrow> nat \<Rightarrow> nat \<Rightarrow> PDFChunk" where
  "newChunk filename filepath country textLength numPages textChunks chunkIdCounter i =
     \<lparr>c_id = chunkIdOf chunkIdCounter,
      c_filename = filename,
      c_filepath = filepath,
      c_country = country,
      c_pageNumber = estimatedPage textLength numPages i,
      c_text = textChunks ! i,
      c_chunkIndex = i\<rparr>"

definition pushChunks ::
  "string \<Rightarrow> path \<Rightarrow> string \<Rightarrow> nat \<Rightarrow> nat \<Rightarrow> string list \<Rightarrow>
   PDFChunk list \<times> nat \<Rightarrow> PDFChunk list \<times> nat" where
  "pushChunks filename filepath country textLength numPages textChunks state =
     foldl (\<lambda>(allChunks, chunkIdCounter) i.
              (allChunks @
                 [newChunk filename filepath country textLength numPages textChunks
                    chunkIdCounter i],
               chunkIdCounter + 1))
       state [0..<length textChunks]"

definition processFile ::
  "path \<Rightarrow> (path \<Rightarrow> pdf_parse) \<Rightarrow> path \<Rightarrow> PDFChunk list \<times> nat \<Rightarrow>
   (PDFChunk list \<times> nat) option" where
  "processFile dataDir pdf filepath state =
     (let (t, numPages) = extractTextFromPDF pdf filepath
      in if t = [] \<or> length (js_trim t) = 0 then Some state
         else
           let relativePath = path_relative dataDir filepath;
               country = (if length relativePath > 1 then hd relativePath else ''unknown'');
               filename = basename filepath
           in case chunkText t CHUNK_SIZE CHUNK_OVERLAP of
                Inl err \<Rightarrow> None
              | Inr textChunks \<Rightarrow>
                  Some (pushChunks filename filepath country (length t) numPages
                          textChunks state))"

fun processFiles ::
  "path \<Rightarrow> (path \<Rightarrow> pdf_parse) \<Rightarrow> path list \<Rightarrow> PDFChunk list \<times> nat \<Rightarrow>
   (PDFChunk list \<times> nat) option" where
  "processFiles dataDir pdf [] state = Some state"
| "processFiles dataDir pdf (filepath # pdfFiles) state =
     (case processFile dataDir pdf filepath state of
        None \<Rightarrow> None
      | Some state' \<Rightarrow> processFiles dataDir pdf pdfFiles state')"

definition processPDFs ::
  "path \<Rightarrow> entry list option \<Rightarrow> (path \<Rightarrow> pdf_parse) \<Rightarrow> PDFChunk list option" where
  "processPDFs dataDir listing pdf =
     map_option fst (processFiles dataDir pdf (findPDFFiles dataDir listing) ([], 0))"

section \<open>embeddingsService.ts\<close>

text \<open>
  An embedding record. The vector is optional because the source stores
  \<^verbatim>\<open>embeddings[j]\<close> without looking at the length of the answer. The cached form is the
  record without its text, and the full record extends it. The batching and the cache
  do not look into a vector, so the records leave its type open: the search reads the
  components as real numbers (\<open>vec\<close>), the cache file stores them as doubles.
\<close>

type_synonym vec = "real list"

record 'v CachedEmbeddingData =
  e_chunkId :: string
  e_embedding :: "'v option"
  e_filename :: string
  e_country :: string
  e_pageNumber :: int

record 'v EmbeddingData = "'v CachedEmbeddingData" +
  e_text :: string

definition BATCH_SIZE :: nat where
  "BATCH_SIZE = 100"

text \<open>
  The embedding capability answers the request with a given number, for a list of texts,
  with a list of vectors or with a failure. \<^verbatim>\<open>generateEmbeddings\<close> sends one request per
  batch, so the number of the request is the number of the batch.
\<close>

definition generateEmbeddingsBatch ::
  "(nat \<Rightarrow> string list \<Rightarrow> error + 'v list) \<Rightarrow> nat \<Rightarrow> string list \<Rightarrow> error + 'v list" where
  "generateEmbeddingsBatch embedApi request texts = embedApi request texts"

definition batchRecords :: "PDFChunk list \<Rightarrow> 'v list \<Rightarrow> 'v EmbeddingData list" where
  "batchRecords batch embeddings' =
     map (\<lambda>j. \<lparr>e_chunkId = c_id (batch ! j),
                e_embedding = js_index embeddings' j,
                e_filename = c_filename (batch ! j),
                e_country = c_country (batch ! j),
                e_pageNumber = c_pageNumber (batch ! j),
                e_text = c_text (batch ! j)\<rparr>) [0..<length batch]"

function generateEmbeddings_loop ::
  "(nat \<Rightarrow> string list \<Rightarrow> error + 'v list) \<Rightarrow> PDFChunk list \<Rightarrow> nat \<Rightarrow>
   'v EmbeddingData list \<Rightarrow> 'v EmbeddingData list" where
  "generateEmbeddings_loop embedApi chunks i embeddingDataList =
     (if i < length chunks
      then
        let batch = js_slice chunks (int i) (int (min (i + BATCH_SIZE) (length chunks)));
            texts = map c_text batch
        in case generateEmbeddingsBatch embedApi (i div BATCH_SIZE) texts of
             Inr embeddings' \<Rightarrow>
               generateEmbeddings_loop embedApi chunks (i + BATCH_SIZE)
                 (embeddingDataList @ batchRecords batch embeddings')
           | Inl err \<Rightarrow>
               generateEmbeddings_loop embedApi chunks (i + BATCH_SIZE) embeddingDataList
      else embeddingDataList)"
  by pat_completeness auto
termination
  by (relation "measure (\<lambda>(embedApi, chunks, i, acc). length chunks - i)")
     (auto simp: BATCH_SIZE_def)

definition generateEmbeddings ::
  "(nat \<Rightarrow> string list \<Rightarrow> error + 'v list) \<Rightarrow> PDFChunk list \<Rightarrow> 'v EmbeddingData list" where
  "generateEmbeddings embedApi chunks = generateEmbeddings_loop embedApi chunks 0 []"

text \<open>
  The cache file holds a text: \<open>Document v\<close> when \<^verbatim>\<open>JSON.parse\<close> reads the value \<open>v\<close> from
  it, \<open>Unparsable\<close> when \<^verbatim>\<open>JSON.parse\<close> throws on it.

  \<^verbatim>\<open>saveEmbeddingsCache\<close> writes to a stream the header, \<^verbatim>\<open>JSON.stringify(cached)\<close> for
  every record, commas between them, and the footer. \<open>JSON_cached\<close> is the value that
  \<^verbatim>\<open>JSON.parse\<close> reads from \<^verbatim>\<open>JSON.stringify(cached)\<close>: the properties in the order of the
  object literal, without the vector when the record has none, each component of the
  vector as \<open>JSON_number\<close> gives it. The time stamp is \<^verbatim>\<open>toISOString()\<close>, which has no
  character that needs an escape, so the text written denotes the document below. The
  stream writes after the function has returned, and its errors do not reach the
  \<^verbatim>\<open>try\<close> of the function, whose \<^verbatim>\<open>catch\<close> no list of records enters (\<^verbatim>\<open>JSON.stringify\<close>
  does not throw on strings and numbers). The file therefore depends on how the stream
  ends: it holds the whole text; or the file could not be opened and is as it was; or
  the stream broke off, and the file holds a proper prefix of the text, which lacks the
  closing brace and does not parse.
\<close>

datatype file_content = Unparsable | Document json

datatype stream_end = Written | NotOpened | Interrupted

definition toCached :: "'v EmbeddingData \<Rightarrow> 'v CachedEmbeddingData" where
  "toCached e =
     \<lparr>e_chunkId = e_chunkId e,
      e_embedding = e_embedding e,
      e_filename = e_filename e,
      e_country = e_country e,
      e_pageNumber = e_pageNumber e\<rparr>"

definition JSON_cached :: "double list CachedEmbeddingData \<Rightarrow> json" where
  "JSON_cached cached =
     JObj ([(''chunkId'', JStr (e_chunkId cached))] @
           (case e_embedding cached of
              None \<Rightarrow> []
            | Some v \<Rightarrow> [(''embedding'', JArr (map JSON_number v))]) @
           [(''filename'', JStr (e_filename cached)),
            (''country'', JStr (e_country cached)),
            (''pageNumber'', JNum (Finite (of_int (e_pageNumber cached))))])"

definition saveEmbeddingsCache ::
  "double list EmbeddingData list \<Rightarrow> string \<Rightarrow> stream_end \<Rightarrow> file_content option \<Rightarrow>
   file_content option" where
  "saveEmbeddingsCache embeddings' now stream file =
     (case stream of
        Written \<Rightarrow>
          Some (Document (JObj [(''version'', JStr ''1.0''),
                                (''createdAt'', JStr now),
                                (''embeddings'',
                                 JArr (map (\<lambda>e. JSON_cached (toCached e)) embeddings'))]))
      | NotOpened \<Rightarrow> file
      | Interrupted \<Rightarrow> Some Unparsable)"

text \<open>
  \<^verbatim>\<open>loadEmbeddingsCache\<close> returns \<^verbatim>\<open>null\<close> when the file does not exist and when
  anything throws: \<^verbatim>\<open>JSON.parse\<close>, reading \<^verbatim>\<open>embeddings\<close> of \<^verbatim>\<open>null\<close>, calling \<^verbatim>\<open>map\<close> on
  what is not an array, reading \<^verbatim>\<open>chunkId\<close> of an element that is \<^verbatim>\<open>null\<close>. Otherwise it
  returns, for every element, the object \<^verbatim>\<open>{...cached, text: chunk?.text || ""}\<close>: the
  properties of the element, then the text. The objects come from \<^verbatim>\<open>JSON.parse\<close>, so
  they are values of type \<open>json\<close>; that they are \<^verbatim>\<open>EmbeddingData\<close> is asserted by the source,
  not checked. \<^verbatim>\<open>new Map(chunks.map(...))\<close> keeps the last chunk of each id, and only a
  string can be the id of a chunk.
\<close>

definition chunkMap :: "PDFChunk list \<Rightarrow> (string \<rightharpoonup> PDFChunk)" where
  "chunkMap chunks = foldl (\<lambda>m chunk. m(c_id chunk \<mapsto> chunk)) Map.empty chunks"

definition chunkOf :: "PDFChunk list \<Rightarrow> json \<Rightarrow> PDFChunk option" where
  "chunkOf chunks cached =
     (case js_get cached ''chunkId'' of
        Some (JStr cid) \<Rightarrow> chunkMap chunks cid
      | _ \<Rightarrow> None)"

definition reconstruct :: "PDFChunk list \<Rightarrow> json \<Rightarrow> json" where
  "reconstruct chunks cached =
     JObj (own_properties cached @
           [(''text'', JStr (case chunkOf chunks cached of
                               None \<Rightarrow> []
                             | Some chunk \<Rightarrow>
                                 (if c_text chunk \<noteq> [] then c_text chunk else [])))])"

definition loadEmbeddingsCache ::
  "PDFChunk list \<Rightarrow> file_content option \<Rightarrow> json list option" where
  "loadEmbeddingsCache chunks file =
     (case file of
        None \<Rightarrow> None
      | Some Unparsable \<Rightarrow> None
      | Some (Document cache) \<Rightarrow>
          (case js_get cache ''embeddings'' of
             Some (JArr items) \<Rightarrow>
               if JNull \<in> set items then None
               else Some (map (reconstruct chunks) items)
           | _ \<Rightarrow> None))"

section \<open>vectorSearch.ts\<close>

text \<open>
  \<^verbatim>\<open>cosineSimilarity\<close> throws on vectors of different lengths, and on a record without a
  vector when it reads the length. A zero denominator gives \<^verbatim>\<open>NaN\<close>: one of the
  vectors is zero then, and so is the dot product. The embedding of the query is a
  capability that may fail.
\<close>

record SearchResult =
  r_chunkId :: string
  r_filename :: string
  r_country :: string
  r_pageNumber :: int
  r_text :: string
  r_similarity :: jsnum

definition cosineSimilarity :: "vec \<Rightarrow> vec option \<Rightarrow> error + jsnum" where
  "cosineSimilarity a b' =
     (case b' of
        None \<Rightarrow> Inl TypeError
      | Some b \<Rightarrow>
          if length a \<noteq> length b then Inl LengthMismatch
          else
            let (dotProduct, normA, normB) =
                  foldl (\<lambda>(dotProduct, normA, normB) i.
                           (dotProduct + a ! i * b ! i, normA + a ! i * a ! i,
                            normB + b ! i * b ! i))
                    (0, 0, 0) [0..<length a];
                denominator = sqrt normA * sqrt normB
            in if denominator = 0 then Inr NaN else Inr (Num (dotProduct / denominator)))"

definition generateQueryEmbedding :: "(string \<Rightarrow> error + vec) \<Rightarrow> string \<Rightarrow> error + vec" where
  "generateQueryEmbedding embedQuery query = embedQuery query"

definition scoreRecord :: "vec \<Rightarrow> vec EmbeddingData \<Rightarrow> error + SearchResult" where
  "scoreRecord queryEmbedding embData =
     (case cosineSimilarity queryEmbedding (e_embedding embData) of
        Inl err \<Rightarrow> Inl err
      | Inr s \<Rightarrow>
          Inr \<lparr>r_chunkId = e_chunkId embData,
               r_filename = e_filename embData,
               r_country = e_country embData,
               r_pageNumber = e_pageNumber embData,
               r_text = e_text embData,
               r_similarity = s\<rparr>)"

definition searchSimilarDocuments ::
  "(string \<Rightarrow> error + vec) \<Rightarrow> string \<Rightarrow> vec EmbeddingData list \<Rightarrow> int \<Rightarrow> jsnum \<Rightarrow>
   error + SearchResult list" where
  "searchSimilarDocuments embedQuery query embeddings' topK minSimilarity =
     (case generateQueryEmbedding embedQuery query of
        Inl err \<Rightarrow> Inl err
      | Inr queryEmbedding \<Rightarrow>
          (case map_throwing (scoreRecord queryEmbedding) embeddings' of
             Inl err \<Rightarrow> Inl err
           | Inr results \<Rightarrow>
               Inr (js_slice
                      (js_sort (\<lambda>a b. js_sub (r_similarity b) (r_similarity a))
                         (filter (\<lambda>r. js_ge (r_similarity r) minSimilarity) results))
                      0 topK)))"

section \<open>schema.ts\<close>

text \<open>
  The case, the patch of a case (\<^verbatim>\<open>Partial<Case>\<close>: every property may be absent), the
  analysis of one category and the report. The properties that \<^verbatim>\<open>generateReport\<close> copies
  from the parsed completion are kept as the JSON values they are.
\<close>

datatype urgencyLevel = Urgency_low | Urgency_medium | Urgency_high | Urgency_critical

record ExtractedEntities =
  hostCountry :: "string option"
  medicalNeeds :: "string list option"
  educationNeeds :: "string list option"
  age :: "int option"
  familySize :: "int option"
  complications :: "string list option"
  urgencyLevel :: "urgencyLevel option"

datatype caseStatus = Draft | Verified | Completed

record Case =
  case_id :: string
  caseNumber :: string
  case_notes :: string
  audioTranscription :: "string option"
  extractedEntities :: ExtractedEntities
  status :: caseStatus
  createdAt :: string
  updatedAt :: string

record CasePatch =
  patch_id :: "string option"
  patch_caseNumber :: "string option"
  patch_notes :: "string option"
  patch_audioTranscription :: "string option option"
  patch_extractedEntities :: "ExtractedEntities option"
  patch_status :: "caseStatus option"
  patch_createdAt :: "string option"
  patch_updatedAt :: "string option"

record User =
  user_id :: string
  username :: string
  password :: string

datatype rightType =
  Asylum | Documentation | Education | Family_life | Freedom_movement | Health | Housing
  | Liberty_security | Nationality | Social_protection | Work

record RightsAnalysis =
  ra_rightType :: rightType
  ra_summary :: "json option"
  ra_legalBasis :: "json option"
  ra_citation :: "json option"
  ra_complications :: json
  ra_risks :: json
  ra_similarCases :: "json list"
  ra_confidenceLevel :: "json option"

record Report =
  report_id :: string
  report_caseId :: string
  report_caseNumber :: string
  generatedAt :: string
  rightsAnalysis :: "RightsAnalysis list"
  disclaimer :: string

section \<open>storage.ts\<close>

text \<open>
  \<^verbatim>\<open>MemStorage\<close> holds three maps. The clock and the fresh identifier are arguments.
  \<^verbatim>\<open>updateCase\<close> spreads the stored case, then the patch, and sets \<^verbatim>\<open>id\<close> and
  \<^verbatim>\<open>updatedAt\<close> last.
\<close>

record MemStorage =
  users :: "string \<rightharpoonup> User"
  cases :: "string \<rightharpoonup> Case"
  reports :: "string \<rightharpoonup> Report"

definition spreadCase :: "Case \<Rightarrow> CasePatch \<Rightarrow> Case" where
  "spreadCase existingCase updates =
     \<lparr>case_id = js_spread (case_id existingCase) (patch_id updates),
      caseNumber = js_spread (caseNumber existingCase) (patch_caseNumber updates),
      case_notes = js_spread (case_notes existingCase) (patch_notes updates),
      audioTranscription =
        js_spread (audioTranscription existingCase) (patch_audioTranscription updates),
      extractedEntities =
        js_spread (extractedEntities existingCase) (patch_extractedEntities updates),
      status = js_spread (status existingCase) (patch_status updates),
      createdAt = js_spread (createdAt existingCase) (patch_createdAt updates),
      updatedAt = js_spread (updatedAt existingCase) (patch_updatedAt updates)\<rparr>"

definition getCase :: "string \<Rightarrow> MemStorage \<Rightarrow> Case option" where
  "getCase cid st = cases st cid"

definition updateCase ::
  "string \<Rightarrow> CasePatch \<Rightarrow> string \<Rightarrow> MemStorage \<Rightarrow> Case option \<times> MemStorage" where
  "updateCase cid updates now st =
     (case cases st cid of
        None \<Rightarrow> (None, st)
      | Some existingCase \<Rightarrow>
          let updatedCase = (spreadCase existingCase updates)\<lparr>case_id := cid, updatedAt := now\<rparr>
          in (Some updatedCase, st\<lparr>cases := (cases st)(cid \<mapsto> updatedCase)\<rparr>))"

definition createCase ::
  "string \<Rightarrow> string \<Rightarrow> string option \<Rightarrow> ExtractedEntities \<Rightarrow> caseStatus \<Rightarrow>
   string \<Rightarrow> string \<Rightarrow> MemStorage \<Rightarrow> Case \<times> MemStorage" where
  "createCase caseNumber' notes' audioTranscription' extractedEntities' status' uuid now st =
     (let newCase =
        \<lparr>case_id = uuid, caseNumber = caseNumber', case_notes = notes',
         audioTranscription = audioTranscription', extractedEntities = extractedEntities',
         status = status', createdAt = now, updatedAt = now\<rparr>
      in (newCase, st\<lparr>cases := (cases st)(uuid \<mapsto> newCase)\<rparr>))"

definition createReport ::
  "string \<Rightarrow> string \<Rightarrow> string \<Rightarrow> RightsAnalysis list \<Rightarrow> string \<Rightarrow> string \<Rightarrow>
   MemStorage \<Rightarrow> Report \<times> MemStorage" where
  "createReport caseId caseNumber' generatedAt' rightsAnalysis' disclaimer' uuid st =
     (let report =
        \<lparr>report_id = uuid, report_caseId = caseId, report_caseNumber = caseNumber',
         generatedAt = generatedAt', rightsAnalysis = rightsAnalysis',
         disclaimer = disclaimer'\<rparr>
      in (report, st\<lparr>reports := (reports st)(uuid \<mapsto> report)\<rparr>))"

section \<open>The routes\<close>

text \<open>
  \<^verbatim>\<open>POST /api/report/generate\<close>. The list \<^verbatim>\<open>rightsCategories\<close> pairs each attempted
  category with its query. The completion service answers one request per category; its
  answer is represented by what the handler makes of it: the request fails, the content
  is missing or empty, \<^verbatim>\<open>JSON.parse\<close> throws on the content, or the content parses to a
  value. The prompt is determined by the category, the case and the search results, which
  the model passes in its place. \<^verbatim>\<open>searchWebForSimilarCases\<close> catches every error and
  returns a list.
\<close>

definition rightsCategories :: "Case \<Rightarrow> (rightType \<times> string) list" where
  "rightsCategories caseData =
     (let entities = extractedEntities caseData;
          country = js_or (hostCountry entities) ''Switzerland''
      in (case medicalNeeds entities of
            None \<Rightarrow> []
          | Some needs \<Rightarrow>
              if length needs > 0
              then [(Health, ''medical rights healthcare access treatment for ''
                               @ js_join '' '' needs @ '' in '' @ country)]
              else [])
       @ (case educationNeeds entities of
            None \<Rightarrow> []
          | Some needs \<Rightarrow>
              if length needs > 0
              then [(Education, ''education rights school access language classes for refugees in ''
                                  @ country)]
              else [])
       @ (case familySize entities of
            None \<Rightarrow> []
          | Some n \<Rightarrow>
              if n \<noteq> 0 \<and> n > 1
              then [(Family_life, ''family reunification rights asylum family members in ''
                                    @ country)]
              else [])
       @ [(Housing, ''housing accommodation rights refugees asylum seekers in '' @ country)])"

datatype completion = RequestFails | NoContent | Unparsable | Parsed json

definition needsFor :: "rightType \<Rightarrow> Case \<Rightarrow> string list" where
  "needsFor type' caseData =
     (if type' = Health
      then (case medicalNeeds (extractedEntities caseData) of None \<Rightarrow> [] | Some ns \<Rightarrow> ns)
      else if type' = Education
      then (case educationNeeds (extractedEntities caseData) of None \<Rightarrow> [] | Some ns \<Rightarrow> ns)
      else [])"

definition analyseCategory ::
  "vec EmbeddingData list \<Rightarrow> (string \<Rightarrow> error + vec) \<Rightarrow>
   (rightType \<Rightarrow> SearchResult list \<Rightarrow> completion) \<Rightarrow>
   (rightType \<Rightarrow> string \<Rightarrow> string list \<Rightarrow> json list) \<Rightarrow>
   Case \<Rightarrow> rightType \<times> string \<Rightarrow> error + RightsAnalysis option" where
  "analyseCategory embeddings' embedQuery createCompletion searchWebForSimilarCases caseData task =
     (let (type', query) = task;
          hasDocuments = (length embeddings' > 0)
      in case (if hasDocuments
               then searchSimilarDocuments embedQuery query embeddings' 5 (Num 0.65)
               else Inr []) of
           Inl err \<Rightarrow> Inl err
         | Inr searchResults \<Rightarrow>
             (case createCompletion type' searchResults of
                RequestFails \<Rightarrow> Inl ApiFailure
              | NoContent \<Rightarrow> Inr None
              | Unparsable \<Rightarrow> Inl SyntaxError
              | Parsed analysis \<Rightarrow>
                  let similarCases =
                        searchWebForSimilarCases type'
                          (js_or (hostCountry (extractedEntities caseData)) ''Switzerland'')
                          (needsFor type' caseData)
                  in if analysis = JNull then Inl TypeError
                     else Inr (Some
                       \<lparr>ra_rightType = type',
                        ra_summary = js_get analysis ''summary'',
                        ra_legalBasis = js_get analysis ''legalBasis'',
                        ra_citation = js_get analysis ''citation'',
                        ra_complications = js_or_empty_array (js_get analysis ''complications''),
                        ra_risks = js_or_empty_array (js_get analysis ''risks''),
                        ra_similarCases = similarCases,
                        ra_confidenceLevel = js_get analysis ''confidenceLevel''\<rparr>)))"

definition completedPatch :: CasePatch where
  "completedPatch =
     \<lparr>patch_id = None, patch_caseNumber = None, patch_notes = None,
      patch_audioTranscription = None, patch_extractedEntities = None,
      patch_status = Some Completed, patch_createdAt = None, patch_updatedAt = None\<rparr>"

definition DISCLAIMER :: string where
  "DISCLAIMER = ''This report is generated by AI analysis of legal documents and should be reviewed by a qualified legal professional. It does not constitute legal advice.''"

datatype response = Status400 | Status404 | Status500 | Status200 Report

record Environment =
  env_embeddings :: "vec EmbeddingData list"
  env_embedQuery :: "string \<Rightarrow> error + vec"
  env_createCompletion :: "rightType \<Rightarrow> SearchResult list \<Rightarrow> completion"
  env_searchWeb :: "rightType \<Rightarrow> string \<Rightarrow> string list \<Rightarrow> json list"
  env_uuid :: string
  env_generatedAt :: string
  env_updatedAt :: string

text \<open>
  The handler answers 400 without a case id, 404 for an unknown case and 500 when anything
  below throws. \<^verbatim>\<open>Promise.all\<close> rejects as soon as one category rejects; the answer 500
  does not depend on which one.
\<close>

definition generateReport ::
  "Environment \<Rightarrow> string option \<Rightarrow> MemStorage \<Rightarrow> response \<times> MemStorage" where
  "generateReport env caseId st =
     (case caseId of
        None \<Rightarrow> (Status400, st)
      | Some cid \<Rightarrow>
          if cid = [] then (Status400, st)
          else
            (case getCase cid st of
               None \<Rightarrow> (Status404, st)
             | Some caseData \<Rightarrow>
                 (case map_throwing
                         (analyseCategory (env_embeddings env) (env_embedQuery env)
                            (env_createCompletion env) (env_searchWeb env) caseData)
                         (rightsCategories caseData) of
                    Inl err \<Rightarrow> (Status500, st)
                  | Inr rightsAnalysis' \<Rightarrow>
                      let validAnalysis = map the (filter (\<lambda>a. a \<noteq> None) rightsAnalysis');
                          (report, st1) =
                            createReport (case_id caseData) (caseNumber caseData)
                              (env_generatedAt env) validAnalysis DISCLAIMER (env_uuid env) st;
                          (updated, st2) =
                            updateCase (case_id caseData) completedPatch (env_updatedAt env) st1
                      in (Status200 report, st2))))"

text \<open>
  \<^verbatim>\<open>GET /api/documents/:filename\<close>. The route parameter arrives decoded, so it may
  contain slashes. \<open>existsSync\<close> tells which paths exist.
\<close>

datatype document_response = Forbidden403 | NotFound404 | SendFile string

definition serveDocument :: "string \<Rightarrow> (string \<Rightarrow> bool) \<Rightarrow> string \<Rightarrow> document_response" where
  "serveDocument cwd existsSync filename =
     (let filePath = posix_join [cwd, ''data'', filename];
          normalizedPath = posix_normalize filePath;
          dataDir = posix_join [cwd, ''data'']
      in if \<not> startsWith normalizedPath dataDir then Forbidden403
         else if \<not> existsSync filePath then NotFound404
         else SendFile filePath)"

section \<open>Vocabulary of the statements\<close>

text \<open>
  The number of chunks of a text and the chunk at a position, in closed form; the number of
  chunks that a file contributes.
\<close>

definition chunkCount :: "nat \<Rightarrow> int \<Rightarrow> int \<Rightarrow> nat" where
  "chunkCount len chunkSize overlap =
     (len + nat (chunkSize - overlap) - 1) div nat (chunkSize - overlap)"

definition chunkAt :: "string \<Rightarrow> int \<Rightarrow> int \<Rightarrow> nat \<Rightarrow> string" where
  "chunkAt t chunkSize overlap i =
     js_slice t (int i * (chunkSize - overlap))
       (min (int i * (chunkSize - overlap) + chunkSize) (int (length t)))"

definition numChunks :: "(path \<Rightarrow> pdf_parse) \<Rightarrow> path \<Rightarrow> nat" where
  "numChunks pdf filepath =
     (let (t, numPages) = extractTextFromPDF pdf filepath
      in if t = [] \<or> length (js_trim t) = 0 then 0
         else chunkCount (length t) CHUNK_SIZE CHUNK_OVERLAP)"

definition nat_of_string :: "string \<Rightarrow> nat" where
  "nat_of_string s = foldl (\<lambda>a c. 10 * a + (of_char c - 48)) 0 s"

text \<open>
  The batches of \<^verbatim>\<open>generateEmbeddings\<close> and what each contributes; the vectors with
  which the capability answers the request of a batch (none when it fails); the record
  of a chunk with a vector.
\<close>

definition batchOf :: "PDFChunk list \<Rightarrow> nat \<Rightarrow> PDFChunk list" where
  "batchOf chunks k = take BATCH_SIZE (drop (k * BATCH_SIZE) chunks)"

definition numBatches :: "nat \<Rightarrow> nat" where
  "numBatches n = (n + BATCH_SIZE - 1) div BATCH_SIZE"

definition batchOutcome ::
  "(nat \<Rightarrow> string list \<Rightarrow> error + 'v list) \<Rightarrow> PDFChunk list \<Rightarrow> nat \<Rightarrow> 'v EmbeddingData list" where
  "batchOutcome embedApi chunks k =
     (case embedApi k (map c_text (batchOf chunks k)) of
        Inl err \<Rightarrow> []
      | Inr vs \<Rightarrow> batchRecords (batchOf chunks k) vs)"

definition answer ::
  "(nat \<Rightarrow> string list \<Rightarrow> error + 'v list) \<Rightarrow> PDFChunk list \<Rightarrow> nat \<Rightarrow> 'v list" where
  "answer embedApi chunks k =
     (case embedApi k (map c_text (batchOf chunks k)) of Inl err \<Rightarrow> [] | Inr vs \<Rightarrow> vs)"

definition recordOf :: "PDFChunk \<Rightarrow> 'v option \<Rightarrow> 'v EmbeddingData" where
  "recordOf c v =
     \<lparr>e_chunkId = c_id c, e_embedding = v, e_filename = c_filename c,
      e_country = c_country c, e_pageNumber = c_pageNumber c, e_text = c_text c\<rparr>"

definition chunkFields :: "PDFChunk \<Rightarrow> string \<times> string \<times> string \<times> int \<times> string" where
  "chunkFields c = (c_id c, c_filename c, c_country c, c_pageNumber c, c_text c)"

definition recordFields :: "'v EmbeddingData \<Rightarrow> string \<times> string \<times> string \<times> int \<times> string" where
  "recordFields e = (e_chunkId e, e_filename e, e_country e, e_pageNumber e, e_text e)"

text \<open>
The comparison function of the ranking and the order it yields.
\<close>

definition bySimilarity :: "SearchResult \<Rightarrow> SearchResult \<Rightarrow> jsnum" where
  "bySimilarity a b = js_sub (r_similarity b) (r_similarity a)"

definition descending :: "SearchResult \<Rightarrow> SearchResult \<Rightarrow> bool" where
  "descending a b = js_ge (r_similarity a) (r_similarity b)"

definition scored :: "SearchResult \<Rightarrow> bool" where
  "scored r = (r_similarity r \<noteq> NaN)"

text \<open>
  Every case is stored under its own id. The applicability conditions of the categories.
  The segments of a path and containment of a path in a directory.
\<close>

definition keyed_by_id :: "MemStorage \<Rightarrow> bool" where
  "keyed_by_id st = (\<forall>k c. cases st k = Some c \<longrightarrow> case_id c = k)"




definition segments :: "string \<Rightarrow> string list" where
  "segments p = filter (\<lambda>seg. seg \<noteq> []) (split_path p)"

definition insideDirectory :: "string \<Rightarrow> string \<Rightarrow> bool" where
  "insideDirectory dir p = prefix (segments dir) (segments p)"

section \<open>Sample data\<close>

definition sampleChunk :: "nat \<Rightarrow> PDFChunk" where
  "sampleChunk i =
     \<lparr>c_id = chunkIdOf i, c_filename = ''a.pdf'', c_filepath = [''data'', ''a.pdf''],
      c_country = ''unknown'', c_pageNumber = 1, c_text = ''text'', c_chunkIndex = i\<rparr>"

definition flakyApi :: "nat \<Rightarrow> string list \<Rightarrow> error + vec list" where
  "flakyApi request texts =
     (if request = 1 then Inl ApiFailure
      else Inr (map (\<lambda>i. [real request, real i]) [0..<length texts]))"

definition sampleRecord :: "string \<Rightarrow> 'v option \<Rightarrow> 'v EmbeddingData" where
  "sampleRecord cid v =
     \<lparr>e_chunkId = cid, e_embedding = v, e_filename = ''a.pdf'', e_country = ''unknown'',
      e_pageNumber = 1, e_text = ''text''\<rparr>"

definition sampleResult :: "string \<Rightarrow> real \<Rightarrow> SearchResult" where
  "sampleResult cid s =
     \<lparr>r_chunkId = cid, r_filename = ''a.pdf'', r_country = ''unknown'',
      r_pageNumber = 1, r_text = ''text'', r_similarity = Num s\<rparr>"

definition sampleCase :: Case where
  "sampleCase =
     \<lparr>case_id = ''c1'', caseNumber = ''UNHCR-CH-2025-10000'', case_notes = ''notes'',
      audioTranscription = None,
      extractedEntities =
        \<lparr>hostCountry = None, medicalNeeds = Some [''diabetes''], educationNeeds = None,
         age = None, familySize = None, complications = None, urgencyLevel = None\<rparr>,
      status = Draft, createdAt = ''t0'', updatedAt = ''t0''\<rparr>"


definition sampleStore :: MemStorage where
  "sampleStore = \<lparr>users = Map.empty, cases = [''c1'' \<mapsto> sampleCase], reports = Map.empty\<rparr>"

definition samplePatch :: CasePatch where
  "samplePatch =
     \<lparr>patch_id = Some ''c9'', patch_caseNumber = None, patch_notes = None,
      patch_audioTranscription = None, patch_extractedEntities = None,
      patch_status = Some Completed, patch_createdAt = None, patch_updatedAt = Some ''t9''\<rparr>"

definition sampleAnalysis :: json where
  "sampleAnalysis =
     JObj [(''summary'', JStr ''s''), (''legalBasis'', JStr ''b''),
           (''citation'', JObj [(''quote'', JStr ''q'')]),
           (''complications'', JArr [JStr ''c'']), (''risks'', JArr []),
           (''confidenceLevel'', JStr ''low'')]"

definition sampleEnv :: "(rightType \<Rightarrow> completion) \<Rightarrow> Environment" where
  "sampleEnv outcome =
     \<lparr>env_embeddings = [], env_embedQuery = (\<lambda>q. Inl ApiFailure),
      env_createCompletion = (\<lambda>type' results. outcome type'),
      env_searchWeb = (\<lambda>type' country needs. []),
      env_uuid = ''r1'', env_generatedAt = ''t1'', env_updatedAt = ''t2''\<rparr>"

definition healthUnparsable :: "rightType \<Rightarrow> completion" where
  "healthUnparsable t = (if t = Health then Unparsable else Parsed sampleAnalysis)"

definition healthNoContent :: "rightType \<Rightarrow> completion" where
  "healthNoContent t = (if t = Health then NoContent else Parsed sampleAnalysis)"

chapter \<open>Properties\<close>

section \<open>The chunker\<close>

text \<open>
  With a positive step the loop on the unbounded array returns; with a step that is not
  positive and a non-empty text it never does, since \<^verbatim>\<open>start\<close> stays at or below zero.
\<close>

lemma chunkText_loop_returns:
  "overlap < chunkSize \<Longrightarrow> \<exists>r. chunkText_loop t chunkSize overlap start chunks = Some r"
proof (induction "nat (int (length t) - start)" arbitrary: start chunks rule: less_induct)
  case less
  show ?case
  proof (cases "start < int (length t)")
    case True
    have "nat (int (length t) - (start + (chunkSize - overlap))) < nat (int (length t) - start)"
      using True less.prems by linarith
    from less.hyps [OF this less.prems] show ?thesis
      using True by (subst chunkText_loop.simps) simp
  next
    case False
    then show ?thesis by (subst chunkText_loop.simps) simp
  qed
qed

lemma chunkText_loop_stuck:
  assumes "chunkText_loop t0 chunkSize0 overlap0 start0 chunks0 = Some r0"
  shows "\<not> (chunkSize0 \<le> overlap0 \<and> start0 \<le> 0 \<and> t0 \<noteq> [])"
proof (rule chunkText_loop.raw_induct
    [where P = "\<lambda>t chunkSize overlap start chunks r.
                  \<not> (chunkSize \<le> overlap \<and> start \<le> 0 \<and> t \<noteq> [])", OF _ assms])
  fix f and t :: string and chunkSize overlap start :: int and chunks r :: "string list"
  assume IH: "\<And>t chunkSize overlap start chunks r.
      f t chunkSize overlap start chunks = Some r \<Longrightarrow>
      \<not> (chunkSize \<le> overlap \<and> start \<le> 0 \<and> t \<noteq> [])"
    and step: "(if start < int (length t)
      then f t chunkSize overlap (start + (chunkSize - overlap))
             (chunks @ [js_slice t start (min (start + chunkSize) (int (length t)))])
      else Some chunks) = Some r"
  show "\<not> (chunkSize \<le> overlap \<and> start \<le> 0 \<and> t \<noteq> [])"
  proof
    assume a: "chunkSize \<le> overlap \<and> start \<le> 0 \<and> t \<noteq> []"
    then have "start < int (length t)" by (cases t) auto
    with step have "f t chunkSize overlap (start + (chunkSize - overlap))
             (chunks @ [js_slice t start (min (start + chunkSize) (int (length t)))]) = Some r"
      by simp
    from IH [OF this] a show False by simp
  qed
qed

lemma chunkText_overflows:
  "chunkSize \<le> overlap \<Longrightarrow> t \<noteq> [] \<Longrightarrow> chunkText t chunkSize overlap = Inl RangeError"
  using chunkText_loop_stuck [of t chunkSize overlap 0 "[]"]
  by (cases "chunkText_loop t chunkSize overlap 0 []") (auto simp: chunkText_def)

lemma chunkText_empty: "chunkText [] chunkSize overlap = Inr []"
  by (simp add: chunkText_def chunkText_loop.simps)

text \<open>
  The same with an explicit capacity: without progress the array fills, whatever its
  capacity, and \<^verbatim>\<open>push\<close> throws; the empty text is answered before anything is pushed.
\<close>

lemma chunkText_bounded_loop_overflows:
  "chunkSize \<le> overlap \<Longrightarrow> t \<noteq> [] \<Longrightarrow> start \<le> 0 \<Longrightarrow>
   chunkText_bounded_loop capacity t chunkSize overlap start chunks = Inl RangeError"
proof (induction "capacity - length chunks" arbitrary: start chunks)
  case 0
  then have "start < int (length t)" by (cases t) auto
  with 0 show ?case by (subst chunkText_bounded_loop.simps) simp
next
  case (Suc d)
  then have lt: "start < int (length t)" by (cases t) auto
  have "chunkText_bounded_loop capacity t chunkSize overlap (start + (chunkSize - overlap))
          (chunks @ [js_slice t start (min (start + chunkSize) (int (length t)))]) =
        Inl RangeError"
    using Suc.hyps(2) Suc.prems by (intro Suc.hyps(1)) auto
  with lt show ?case by (subst chunkText_bounded_loop.simps) simp
qed

lemma chunkText_bounded_overflows:
  "chunkSize \<le> overlap \<Longrightarrow> t \<noteq> [] \<Longrightarrow>
   chunkText_bounded capacity t chunkSize overlap = Inl RangeError"
  unfolding chunkText_bounded_def by (rule chunkText_bounded_loop_overflows) simp_all

lemma chunkText_bounded_empty: "chunkText_bounded capacity [] chunkSize overlap = Inr []"
  by (simp add: chunkText_bounded_def)

text \<open>
  The closed form of the result for \<open>overlap < chunkSize\<close>: chunk \<open>i\<close> starts at
  \<open>i * (chunkSize - overlap)\<close>, and there are as many chunks as steps fit into the text.
\<close>

lemma ceil_div_less:
  assumes "0 < s" "k < (L + s - 1) div s"
  shows "k * s < (L::nat)"
proof -
  have "Suc k * s \<le> ((L + s - 1) div s) * s"
    using assms(2) by (intro mult_le_mono1) simp
  also have "\<dots> \<le> L + s - 1" by (rule div_times_less_eq_dividend)
  finally have "k * s + s \<le> L + s - 1" by simp
  with assms(1) show ?thesis by linarith
qed

lemma ceil_div_ge:
  assumes "0 < s" "(L + s - 1) div s \<le> k"
  shows "(L::nat) \<le> k * s"
proof -
  have "L + s - 1 < s + s * ((L + s - 1) div s)"
    using assms(1) by (rule dividend_less_times_div)
  also have "\<dots> \<le> s + s * k"
    using assms(2) by simp
  finally show ?thesis using assms(1) by (simp add: mult.commute)
qed

lemma chunkText_loop_closed:
  assumes "overlap < chunkSize" "k \<le> chunkCount (length t) chunkSize overlap"
  shows "chunkText_loop t chunkSize overlap (int k * (chunkSize - overlap)) chunks =
         Some (chunks @ map (chunkAt t chunkSize overlap)
                 [k..<chunkCount (length t) chunkSize overlap])"
  using assms(2)
proof (induction "chunkCount (length t) chunkSize overlap - k" arbitrary: k chunks)
  case 0
  then have "chunkCount (length t) chunkSize overlap \<le> k" by simp
  then have "length t \<le> k * nat (chunkSize - overlap)"
    unfolding chunkCount_def using assms(1) by (intro ceil_div_ge) auto
  then have "int (length t) \<le> int k * (chunkSize - overlap)"
    using assms(1) by (metis int_nat_eq less_imp_le of_nat_le_iff of_nat_mult diff_ge_0_iff_ge)
  with 0 show ?case by (subst chunkText_loop.simps) simp
next
  case (Suc d)
  then have lt: "k < chunkCount (length t) chunkSize overlap" by simp
  then have "k * nat (chunkSize - overlap) < length t"
    unfolding chunkCount_def using assms(1) by (intro ceil_div_less) auto
  then have "int (k * nat (chunkSize - overlap)) < int (length t)"
    by (simp only: of_nat_less_iff)
  then have cond: "int k * (chunkSize - overlap) < int (length t)"
    using assms(1) by simp
  have next_start: "int k * (chunkSize - overlap) + (chunkSize - overlap)
                    = int (Suc k) * (chunkSize - overlap)"
    by (simp add: algebra_simps)
  have IH: "chunkText_loop t chunkSize overlap (int (Suc k) * (chunkSize - overlap))
              (chunks @ [chunkAt t chunkSize overlap k]) =
            Some ((chunks @ [chunkAt t chunkSize overlap k]) @
                  map (chunkAt t chunkSize overlap)
                    [Suc k..<chunkCount (length t) chunkSize overlap])"
    using Suc.hyps(2) lt by (intro Suc.hyps(1)) auto
  show ?case
    apply (subst chunkText_loop.simps)
    apply (simp only: cond if_True next_start)
    apply (simp only: chunkAt_def [symmetric] IH)
    using lt apply (simp add: upt_conv_Cons)
    done
qed

lemma chunkText_closed:
  "overlap < chunkSize \<Longrightarrow>
   chunkText t chunkSize overlap =
     Inr (map (chunkAt t chunkSize overlap) [0..<chunkCount (length t) chunkSize overlap])"
  using chunkText_loop_closed [of overlap chunkSize 0 t "[]"] by (simp add: chunkText_def)

text \<open>
  With an explicit capacity the result is the same, as long as the array holds the chunks.
\<close>

lemma chunkText_bounded_loop_closed:
  assumes "overlap < chunkSize" "k \<le> chunkCount (length t) chunkSize overlap"
    and "length chunks + (chunkCount (length t) chunkSize overlap - k) \<le> capacity"
  shows "chunkText_bounded_loop capacity t chunkSize overlap
           (int k * (chunkSize - overlap)) chunks =
         Inr (chunks @ map (chunkAt t chunkSize overlap)
                 [k..<chunkCount (length t) chunkSize overlap])"
  using assms(2,3)
proof (induction "chunkCount (length t) chunkSize overlap - k" arbitrary: k chunks)
  case 0
  then have "chunkCount (length t) chunkSize overlap \<le> k" by simp
  then have "length t \<le> k * nat (chunkSize - overlap)"
    unfolding chunkCount_def using assms(1) by (intro ceil_div_ge) auto
  then have "int (length t) \<le> int k * (chunkSize - overlap)"
    using assms(1) by (metis int_nat_eq less_imp_le of_nat_le_iff of_nat_mult diff_ge_0_iff_ge)
  with 0 show ?case by (subst chunkText_bounded_loop.simps) simp
next
  case (Suc d)
  then have lt: "k < chunkCount (length t) chunkSize overlap" by simp
  then have "k * nat (chunkSize - overlap) < length t"
    unfolding chunkCount_def using assms(1) by (intro ceil_div_less) auto
  then have "int (k * nat (chunkSize - overlap)) < int (length t)"
    by (simp only: of_nat_less_iff)
  then have cond: "int k * (chunkSize - overlap) < int (length t)"
    using assms(1) by simp
  have room: "\<not> capacity \<le> length chunks"
    using Suc.prems(2) lt by simp
  have next_start: "int k * (chunkSize - overlap) + (chunkSize - overlap)
                    = int (Suc k) * (chunkSize - overlap)"
    by (simp add: algebra_simps)
  have IH: "chunkText_bounded_loop capacity t chunkSize overlap
              (int (Suc k) * (chunkSize - overlap))
              (chunks @ [chunkAt t chunkSize overlap k]) =
            Inr ((chunks @ [chunkAt t chunkSize overlap k]) @
                  map (chunkAt t chunkSize overlap)
                    [Suc k..<chunkCount (length t) chunkSize overlap])"
    using Suc.hyps(2) Suc.prems(2) lt by (intro Suc.hyps(1)) auto
  show ?case
    apply (subst chunkText_bounded_loop.simps)
    apply (simp only: cond room if_True if_False next_start)
    apply (simp only: chunkAt_def [symmetric] IH)
    using lt apply (simp add: upt_conv_Cons)
    done
qed

lemma chunkText_bounded_agrees:
  "overlap < chunkSize \<Longrightarrow> chunkCount (length t) chunkSize overlap \<le> capacity \<Longrightarrow>
   chunkText_bounded capacity t chunkSize overlap = chunkText t chunkSize overlap"
  using chunkText_bounded_loop_closed [of overlap chunkSize 0 t "[]" capacity]
  by (simp add: chunkText_bounded_def chunkText_closed)

text \<open>
  Claim C2 reads: for every text, chunk size and overlap, a call of the chunker with
  \<open>overlap \<ge> chunkSize\<close> is rejected with a configuration error, and a call with the empty
  text yields zero chunks. \<^verbatim>\<open>chunkText\<close> checks nothing, so what a call with
  \<open>chunkSize = overlap = 1\<close> does depends on the text: the empty text is answered with
  the empty list and nothing is raised, although the overlap is not below the size; on
  the text \<open>a\<close> the loop pushes the same chunk until the array is full, and what is
  raised then is the \<^verbatim>\<open>RangeError\<close> of \<^verbatim>\<open>push\<close>.
\<close>

theorem chunkText_overlap_not_rejected:
  "chunkText [] 1 1 = Inr [] \<and> chunkText_bounded 3 [] 1 1 = Inr []
   \<and> chunkText ''a'' 1 1 = Inl RangeError
   \<and> chunkText_bounded 3 ''a'' 1 1 = Inl RangeError"
  by (simp add: chunkText_empty chunkText_overflows chunkText_bounded_def js_slice_def)

text \<open>
  Claim C2, as the code has it: \<^verbatim>\<open>chunkText\<close> checks nothing. With \<open>overlap \<ge> chunkSize\<close>
  and a non-empty text it pushes chunks without progress until the array is full,
  whatever the capacity of the array, and then raises \<^verbatim>\<open>RangeError: Invalid array length\<close>,
  not a configuration error; with the empty text it yields zero chunks, whatever the size
  and the overlap; with \<open>overlap < chunkSize\<close> it returns the chunks that start at the
  multiples of \<open>chunkSize - overlap\<close>, for every capacity that holds them.
\<close>

theorem chunkText_degenerate_cases:
  "(chunkSize \<le> overlap \<and> t \<noteq> [] \<longrightarrow>
      chunkText t chunkSize overlap = Inl RangeError
    \<and> chunkText_bounded capacity t chunkSize overlap = Inl RangeError)
   \<and> chunkText [] chunkSize overlap = Inr []
   \<and> chunkText_bounded capacity [] chunkSize overlap = Inr []
   \<and> (overlap < chunkSize \<longrightarrow>
        chunkText t chunkSize overlap =
          Inr (map (chunkAt t chunkSize overlap) [0..<chunkCount (length t) chunkSize overlap])
      \<and> (chunkCount (length t) chunkSize overlap \<le> capacity \<longrightarrow>
           chunkText_bounded capacity t chunkSize overlap = chunkText t chunkSize overlap))"
  by (simp add: chunkText_overflows chunkText_bounded_overflows chunkText_empty
      chunkText_bounded_empty chunkText_closed chunkText_bounded_agrees)

text \<open>
  Claim C2, at the text \<open>abc\<close>: with size 2 and overlap 3 the call raises, in an array
  of capacity 4 as well; with the sizes of the source it returns the one chunk \<open>abc\<close>.
\<close>

theorem chunkText_degenerate_cases_witness:
  "(2::int) \<le> 3 \<and> ''abc'' \<noteq> [] \<and> chunkText ''abc'' 2 3 = Inl RangeError
   \<and> chunkText_bounded 4 ''abc'' 2 3 = Inl RangeError
   \<and> (200::int) < 1000 \<and> chunkCount (length ''abc'') 1000 200 \<le> 4
   \<and> chunkText ''abc'' 1000 200 = Inr [''abc'']
   \<and> chunkText_bounded 4 ''abc'' 1000 200 = Inr [''abc'']"
proof -
  have count: "chunkCount (length ''abc'') 1000 200 = 1"
    by (simp add: chunkCount_def)
  have chunks: "map (chunkAt ''abc'' 1000 200) [0..<1] = [''abc'']"
    by (simp add: chunkAt_def js_slice_def)
  from chunkText_degenerate_cases [of 2 3 "''abc''" 4]
       chunkText_degenerate_cases [of 1000 200 "''abc''" 4] count chunks
  show ?thesis by simp
qed

lemma chunkText_default:
  "chunkText t CHUNK_SIZE CHUNK_OVERLAP =
     Inr (map (chunkAt t CHUNK_SIZE CHUNK_OVERLAP)
             [0..<chunkCount (length t) CHUNK_SIZE CHUNK_OVERLAP])"
  by (rule chunkText_closed) (simp add: CHUNK_SIZE_def CHUNK_OVERLAP_def)

section \<open>Chunk identifiers and provenance\<close>

text \<open>
The decimal numeral determines the number, so distinct counters give distinct ids.
\<close>

lemma of_char_digit: "d < 10 \<Longrightarrow> (of_char (digit d) :: nat) = 48 + d"
proof -
  assume "d < 10"
  then have "d \<in> {0, 1, 2, 3, 4, 5, 6, 7, 8, 9}" by auto
  then show ?thesis by (auto simp: digit_def)
qed

lemma nat_of_string_of_nat: "nat_of_string (string_of_nat n) = n"
proof (induction n rule: string_of_nat.induct)
  case (1 n)
  show ?case
  proof (cases "n < 10")
    case True
    then show ?thesis
      by (subst string_of_nat.simps) (simp add: nat_of_string_def of_char_digit)
  next
    case False
    with 1 have "nat_of_string (string_of_nat (n div 10)) = n div 10" by simp
    with False show ?thesis
      by (subst string_of_nat.simps) (simp add: nat_of_string_def of_char_digit)
  qed
qed

lemma string_of_nat_inj: "string_of_nat m = string_of_nat n \<Longrightarrow> m = n"
  by (metis nat_of_string_of_nat)

lemma chunk_ids_distinct:
  "distinct (map chunkIdOf [m..<n])"
  by (auto simp: distinct_map chunkIdOf_def intro!: inj_onI dest: string_of_nat_inj)

text \<open>
What one file adds to the chunks, and what the loop over the files adds.
\<close>

lemma pushChunks_upto:
  "n \<le> length textChunks \<Longrightarrow>
   foldl (\<lambda>(allChunks, chunkIdCounter) i.
              (allChunks @
                 [newChunk filename filepath country textLength numPages textChunks
                    chunkIdCounter i],
               chunkIdCounter + 1))
       (acc, ctr) [0..<n] =
   (acc @ map (\<lambda>i. newChunk filename filepath country textLength numPages textChunks
                      (ctr + i) i) [0..<n], ctr + n)"
  by (induction n) simp_all

lemma pushChunks_eq:
  "pushChunks filename filepath country textLength numPages textChunks (acc, ctr) =
   (acc @ map (\<lambda>i. newChunk filename filepath country textLength numPages textChunks
                      (ctr + i) i) [0..<length textChunks], ctr + length textChunks)"
  unfolding pushChunks_def by (rule pushChunks_upto) simp

lemma processFile_result:
  "\<exists>block. processFile dataDir pdf filepath (acc, ctr) =
             Some (acc @ block, ctr + numChunks pdf filepath)
         \<and> map c_id block =
             map chunkIdOf [ctr..<ctr + numChunks pdf filepath]
         \<and> map (\<lambda>c. (c_filepath c, c_chunkIndex c)) block =
             map (Pair filepath) [0..<numChunks pdf filepath]"
proof (cases "extractTextFromPDF pdf filepath")
  case (Pair t numPages)
  show ?thesis
  proof (cases "t = [] \<or> length (js_trim t) = 0")
    case True
    with Pair show ?thesis by (simp add: processFile_def numChunks_def)
  next
    case False
    have shift: "map chunkIdOf [ctr..<ctr + n] = map (\<lambda>i. chunkIdOf (ctr + i)) [0..<n]" for n
      by (induction n) simp_all
    from False Pair show ?thesis
      by (simp add: processFile_def numChunks_def chunkText_default pushChunks_eq
          Let_def newChunk_def comp_def shift)
  qed
qed

lemma processFiles_result:
  "\<exists>rest. processFiles dataDir pdf files (acc, ctr) =
            Some (acc @ rest, ctr + length rest)
        \<and> map c_id rest = map chunkIdOf [ctr..<ctr + length rest]
        \<and> map (\<lambda>c. (c_filepath c, c_chunkIndex c)) rest =
            concat (map (\<lambda>f. map (Pair f) [0..<numChunks pdf f]) files)"
proof (induction files arbitrary: acc ctr)
  case Nil
  show ?case by simp
next
  case (Cons f files)
  obtain block where b: "processFile dataDir pdf f (acc, ctr) =
             Some (acc @ block, ctr + numChunks pdf f)"
    "map c_id block = map chunkIdOf [ctr..<ctr + numChunks pdf f]"
    "map (\<lambda>c. (c_filepath c, c_chunkIndex c)) block = map (Pair f) [0..<numChunks pdf f]"
    using processFile_result by blast
  from b(2) have len: "length block = numChunks pdf f"
    by (metis length_map length_upt add_diff_cancel_left')
  obtain rest where r: "processFiles dataDir pdf files (acc @ block, ctr + numChunks pdf f) =
            Some ((acc @ block) @ rest, (ctr + numChunks pdf f) + length rest)"
    "map c_id rest = map chunkIdOf
        [ctr + numChunks pdf f..<(ctr + numChunks pdf f) + length rest]"
    "map (\<lambda>c. (c_filepath c, c_chunkIndex c)) rest =
            concat (map (\<lambda>f. map (Pair f) [0..<numChunks pdf f]) files)"
    using Cons.IH by blast
  have split: "[ctr..<ctr + (numChunks pdf f + length rest)] =
               [ctr..<ctr + numChunks pdf f] @ [ctr + numChunks pdf f..<ctr + numChunks pdf f + length rest]"
    by (metis add.assoc le_add1 upt_add_eq_append)
  show ?case
    apply (rule exI [of _ "block @ rest"])
    using b r len split by (simp add: add.assoc)
qed

text \<open>
  Claim C9: \<^verbatim>\<open>processPDFs\<close> returns, and in the list it returns the ids are
  \<open>chunk_0\<close>, \<open>chunk_1\<close>, ... in order, from one counter across all files, hence pairwise
  distinct, while \<open>chunkIndex\<close> restarts at 0 within each file: paired with the file
  path, the indices are \<open>0, 1, ...\<close> for the first file, then \<open>0, 1, ...\<close> for the
  second, and so on.
\<close>

theorem processPDFs_ids_distinct:
  "\<exists>chunks. processPDFs dataDir listing pdf = Some chunks
     \<and> map c_id chunks = map chunkIdOf [0..<length chunks]
     \<and> distinct (map c_id chunks)
     \<and> map (\<lambda>c. (c_filepath c, c_chunkIndex c)) chunks =
         concat (map (\<lambda>f. map (Pair f) [0..<numChunks pdf f]) (findPDFFiles dataDir listing))"
proof -
  obtain rest where r: "processFiles dataDir pdf (findPDFFiles dataDir listing) ([], 0) =
            Some ([] @ rest, 0 + length rest)"
    "map c_id rest = map chunkIdOf [0..<0 + length rest]"
    "map (\<lambda>c. (c_filepath c, c_chunkIndex c)) rest =
        concat (map (\<lambda>f. map (Pair f) [0..<numChunks pdf f]) (findPDFFiles dataDir listing))"
    using processFiles_result by blast
  then show ?thesis
    by (simp add: processPDFs_def chunk_ids_distinct)
qed

text \<open>
The corpus of the scenario: the root \<open>data\<close> holds \<open>switzerland/a.pdf\<close>.
\<close>

lemma findPDFFiles_switzerland:
  "findPDFFiles [''data''] (Some [Dir ''switzerland'' [File ''a.pdf'']]) =
     [''data'', ''switzerland'', ''a.pdf''] # []"
  by (simp add: findPDFFiles_def endsWith_def toLowerCase_def suffix_to_prefix)

lemma chunkText_2500:
  assumes "length t = 2500"
  shows "chunkText t CHUNK_SIZE CHUNK_OVERLAP =
           Inr [take 1000 t, take 1000 (drop 800 t), drop 1600 t, drop 2400 t]"
proof -
  have n: "chunkCount (length t) CHUNK_SIZE CHUNK_OVERLAP = 4"
    using assms by (simp add: chunkCount_def CHUNK_SIZE_def CHUNK_OVERLAP_def)
  have upt4: "[0..<4] = [0, 1, 2, Suc 2]"
    by (simp add: upt_rec numeral_eq_Suc)
  show ?thesis
    unfolding chunkText_default n upt4
    using assms by (simp add: chunkAt_def js_slice_def CHUNK_SIZE_def CHUNK_OVERLAP_def)
qed

text \<open>
  Claim C7 reads: when \<open>data/switzerland/a.pdf\<close> has an extracted text of exactly 2500
  characters, processing with chunk size 1000 and overlap 200 produces exactly 4 chunks,
  each with country \<open>switzerland\<close>. \<^verbatim>\<open>processPDFs\<close> skips a file whose text is empty
  after \<^verbatim>\<open>trim\<close>: a text of 2500 spaces gives no chunk at all.
\<close>

theorem processPDFs_blank_text_no_chunks:
  "length (replicate 2500 CHR '' '') = 2500
   \<and> processPDFs [''data''] (Some [Dir ''switzerland'' [File ''a.pdf'']])
        (\<lambda>p. ParseResult (replicate 2500 CHR '' '') 1) = Some []"
  unfolding processPDFs_def findPDFFiles_switzerland
  by (simp add: processFile_def extractTextFromPDF_def js_trim_def is_js_space_def)

text \<open>
  Claim C7, as the code has it: when the extracted text of \<open>data/switzerland/a.pdf\<close> has
  exactly 2500 characters, not all of them white space, \<^verbatim>\<open>processPDFs\<close> produces exactly
  4 chunks, each with country \<open>switzerland\<close>; they start at the offsets 0, 800, 1600 and
  2400.
\<close>

theorem processPDFs_switzerland:
  assumes "pdf [''data'', ''switzerland'', ''a.pdf''] = ParseResult t numPages"
    and "length t = 2500"
    and "js_trim t \<noteq> []"
  shows "\<exists>chunks. processPDFs [''data''] (Some [Dir ''switzerland'' [File ''a.pdf'']]) pdf
                    = Some chunks
           \<and> length chunks = 4
           \<and> map c_country chunks = replicate 4 ''switzerland''
           \<and> map c_text chunks = [take 1000 t, take 1000 (drop 800 t), drop 1600 t, drop 2400 t]"
proof -
  have nonempty: "t \<noteq> []" using assms(2) by auto
  have rel: "path_relative [''data''] [''data'', ''switzerland'', ''a.pdf''] = [''switzerland'', ''a.pdf'']"
    by (simp add: path_relative_def)
  have upt4: "[0..<4] = [0, 1, 2, Suc 2]"
    by (simp add: upt_rec numeral_eq_Suc)
  have rep4: "replicate 4 x = [x, x, x, x]" for x :: string
    by (simp add: numeral_eq_Suc)
  show ?thesis
    unfolding processPDFs_def findPDFFiles_switzerland
    using assms(1,3) nonempty
    by (simp add: processFile_def extractTextFromPDF_def chunkText_2500 [OF assms(2)] rel
        pushChunks_eq newChunk_def upt4 rep4 Let_def)
qed

text \<open>
Claim C7, at a text of 2500 letters.
\<close>

theorem processPDFs_switzerland_witness:
  "length (replicate 2500 CHR ''a'') = 2500 \<and> js_trim (replicate 2500 CHR ''a'') \<noteq> []
   \<and> (\<exists>chunks. processPDFs [''data''] (Some [Dir ''switzerland'' [File ''a.pdf'']])
                  (\<lambda>p. ParseResult (replicate 2500 CHR ''a'') 3) = Some chunks
           \<and> length chunks = 4
           \<and> map c_country chunks = replicate 4 ''switzerland'')"
proof -
  have h: "js_trim (replicate 2500 CHR ''a'') \<noteq> []"
    by (simp add: js_trim_def is_js_space_def)
  show ?thesis
    using processPDFs_switzerland [of "\<lambda>p. ParseResult (replicate 2500 CHR ''a'') 3"
        "replicate 2500 CHR ''a''" 3] h
    by auto
qed

section \<open>The embedding run and its cache\<close>

text \<open>
  The loop visits the batches in order; a batch whose request fails contributes nothing,
  every other batch contributes one record per chunk.
\<close>

lemma batch_slice:
  "i < length chunks \<Longrightarrow>
   js_slice chunks (int i) (int (min (i + BATCH_SIZE) (length chunks))) =
   take BATCH_SIZE (drop i chunks)"
  by (auto simp: js_slice_def min_def nat_diff_distrib')

lemma generateEmbeddings_loop_closed:
  "k \<le> numBatches (length chunks) \<Longrightarrow>
   generateEmbeddings_loop embedApi chunks (k * BATCH_SIZE) acc =
   acc @ concat (map (batchOutcome embedApi chunks) [k..<numBatches (length chunks)])"
proof (induction "numBatches (length chunks) - k" arbitrary: k acc)
  case 0
  then have "numBatches (length chunks) \<le> k" by simp
  then have "length chunks \<le> k * BATCH_SIZE"
    unfolding numBatches_def by (intro ceil_div_ge) (auto simp: BATCH_SIZE_def)
  with 0 show ?case by simp
next
  case (Suc d)
  then have lt: "k < numBatches (length chunks)" by simp
  then have cond: "k * BATCH_SIZE < length chunks"
    unfolding numBatches_def by (intro ceil_div_less) (auto simp: BATCH_SIZE_def)
  have next_i: "k * BATCH_SIZE + BATCH_SIZE = Suc k * BATCH_SIZE" by simp
  have idx: "k * BATCH_SIZE div BATCH_SIZE = k" by (simp add: BATCH_SIZE_def)
  have IH: "generateEmbeddings_loop embedApi chunks (Suc k * BATCH_SIZE) acc' =
            acc' @ concat (map (batchOutcome embedApi chunks)
                             [Suc k..<numBatches (length chunks)])" for acc'
    using Suc.hyps(2) lt by (intro Suc.hyps(1)) auto
  have upt: "[k..<numBatches (length chunks)] = k # [Suc k..<numBatches (length chunks)]"
    using lt by (simp add: upt_conv_Cons)
  have slice: "js_slice chunks (int (k * BATCH_SIZE))
                 (int (min (k * BATCH_SIZE + BATCH_SIZE) (length chunks))) = batchOf chunks k"
    using batch_slice [OF cond] by (simp add: batchOf_def)
  show ?case
    apply (subst generateEmbeddings_loop.simps)
    apply (simp only: cond if_True slice Let_def idx generateEmbeddingsBatch_def)
    apply (simp only: next_i IH upt)
    apply (simp add: batchOutcome_def split: sum.splits)
    done
qed

lemma generateEmbeddings_closed:
  "generateEmbeddings embedApi chunks =
   concat (map (batchOutcome embedApi chunks) [0..<numBatches (length chunks)])"
  using generateEmbeddings_loop_closed [of 0 chunks embedApi "[]"]
  by (simp add: generateEmbeddings_def)

lemma batchRecords_fields: "map recordFields (batchRecords batch vs) = map chunkFields batch"
  by (rule nth_equalityI) (simp_all add: batchRecords_def recordFields_def chunkFields_def)

lemma concat_batches:
  "concat (map (\<lambda>j. map chunkFields (batchOf chunks j)) [a..<a + n]) =
   map chunkFields (take (n * BATCH_SIZE) (drop (a * BATCH_SIZE) chunks))"
proof (induction n)
  case 0
  show ?case by simp
next
  case (Suc n)
  have "take (n * BATCH_SIZE + BATCH_SIZE) (drop (a * BATCH_SIZE) chunks) =
        take (n * BATCH_SIZE) (drop (a * BATCH_SIZE) chunks) @
        take BATCH_SIZE (drop (n * BATCH_SIZE) (drop (a * BATCH_SIZE) chunks))"
    by (rule take_add)
  moreover have "drop (n * BATCH_SIZE) (drop (a * BATCH_SIZE) chunks) =
        drop ((a + n) * BATCH_SIZE) chunks"
    by (simp add: add_mult_distrib add.commute)
  moreover have "Suc n * BATCH_SIZE = n * BATCH_SIZE + BATCH_SIZE" by simp
  ultimately have "take (Suc n * BATCH_SIZE) (drop (a * BATCH_SIZE) chunks) =
        take (n * BATCH_SIZE) (drop (a * BATCH_SIZE) chunks) @ batchOf chunks (a + n)"
    by (simp only: batchOf_def)
  with Suc show ?case by (simp del: mult_Suc)
qed

lemma batchRecords_recordOf:
  "batchRecords batch vs =
   map (\<lambda>i. recordOf (batch ! i) (js_index vs i)) [0..<length batch]"
  by (simp add: batchRecords_def recordOf_def)

lemma batchRecords_zip:
  "length vs = length batch \<Longrightarrow>
   batchRecords batch vs = map (\<lambda>(c, v). recordOf c (Some v)) (zip batch vs)"
  by (rule nth_equalityI) (simp_all add: batchRecords_def recordOf_def js_index_def)

lemma concat_zip:
  "(\<And>j. j \<in> set js \<Longrightarrow> length (A j) = length (B j)) \<Longrightarrow>
   concat (map (\<lambda>j. map f (zip (A j) (B j))) js) =
   map f (zip (concat (map A js)) (concat (map B js)))"
  by (induction js) (simp_all add: zip_append)

lemma concat_batchOf:
  "concat (map (batchOf chunks) [a..<a + n]) =
   take (n * BATCH_SIZE) (drop (a * BATCH_SIZE) chunks)"
proof (induction n)
  case 0
  show ?case by simp
next
  case (Suc n)
  have "take (n * BATCH_SIZE + BATCH_SIZE) (drop (a * BATCH_SIZE) chunks) =
        take (n * BATCH_SIZE) (drop (a * BATCH_SIZE) chunks) @
        take BATCH_SIZE (drop (n * BATCH_SIZE) (drop (a * BATCH_SIZE) chunks))"
    by (rule take_add)
  moreover have "drop (n * BATCH_SIZE) (drop (a * BATCH_SIZE) chunks) =
        drop ((a + n) * BATCH_SIZE) chunks"
    by (simp add: add_mult_distrib add.commute)
  moreover have "Suc n * BATCH_SIZE = n * BATCH_SIZE + BATCH_SIZE" by simp
  ultimately have "take (Suc n * BATCH_SIZE) (drop (a * BATCH_SIZE) chunks) =
        take (n * BATCH_SIZE) (drop (a * BATCH_SIZE) chunks) @ batchOf chunks (a + n)"
    by (simp only: batchOf_def)
  with Suc show ?case by (simp del: mult_Suc)
qed

lemma batches_outside:
  assumes "k < numBatches (length chunks)"
  shows "concat (map (batchOf chunks) ([0..<k] @ [Suc k..<numBatches (length chunks)])) =
         take (k * BATCH_SIZE) chunks @ drop (Suc k * BATCH_SIZE) chunks"
proof -
  let ?n = "numBatches (length chunks)"
  obtain m where m: "?n = Suc k + m"
    using assms by (metis Suc_leI le_Suc_ex)
  have "length chunks \<le> ?n * BATCH_SIZE"
    unfolding numBatches_def by (intro ceil_div_ge) (auto simp: BATCH_SIZE_def)
  then have all: "take (m * BATCH_SIZE) (drop (Suc k * BATCH_SIZE) chunks) =
                  drop (Suc k * BATCH_SIZE) chunks"
    unfolding m by (intro take_all) (simp add: algebra_simps)
  have "concat (map (batchOf chunks) ([0..<k] @ [Suc k..<?n])) =
        concat (map (batchOf chunks) [0..<0 + k]) @
        concat (map (batchOf chunks) [Suc k..<Suc k + m])"
    by (simp add: m)
  also have "\<dots> = take (k * BATCH_SIZE) (drop (0 * BATCH_SIZE) chunks) @
                   take (m * BATCH_SIZE) (drop (Suc k * BATCH_SIZE) chunks)"
    by (simp only: concat_batchOf)
  finally show ?thesis
    by (simp only: all mult_0 drop_0)
qed

text \<open>
  Claim C5: if the embedding capability fails for batch \<open>k\<close> and answers every other
  batch, \<^verbatim>\<open>generateEmbeddings\<close> returns, batch by batch and in order, one record for every
  chunk outside batch \<open>k\<close>: the record has the fields of its chunk and, as its vector, the
  entry at the position of the chunk in the answer for its batch. So the records are those
  of all chunks outside batch \<open>k\<close>; and when every answer has one vector per text, they
  are these chunks paired with the vectors of the answers. The function has no error
  result: it does not raise to its caller.
\<close>

theorem generateEmbeddings_partial_success:
  assumes exists: "k * BATCH_SIZE < length chunks"
    and fails: "embedApi k (map c_text (batchOf chunks k)) = Inl err"
    and others: "\<forall>j. j \<noteq> k \<and> j * BATCH_SIZE < length chunks \<longrightarrow>
                   (\<exists>vs. embedApi j (map c_text (batchOf chunks j)) = Inr vs)"
  shows "generateEmbeddings embedApi chunks =
           concat (map (\<lambda>j. map (\<lambda>i. recordOf (batchOf chunks j ! i)
                                         (js_index (answer embedApi chunks j) i))
                               [0..<length (batchOf chunks j)])
                     ([0..<k] @ [Suc k..<numBatches (length chunks)]))
         \<and> map recordFields (generateEmbeddings embedApi chunks) =
             map chunkFields (take (k * BATCH_SIZE) chunks @ drop (Suc k * BATCH_SIZE) chunks)
         \<and> ((\<forall>j. j \<noteq> k \<and> j * BATCH_SIZE < length chunks \<longrightarrow>
                  length (answer embedApi chunks j) = length (batchOf chunks j)) \<longrightarrow>
             generateEmbeddings embedApi chunks =
               map (\<lambda>(c, v). recordOf c (Some v))
                 (zip (take (k * BATCH_SIZE) chunks @ drop (Suc k * BATCH_SIZE) chunks)
                      (concat (map (answer embedApi chunks)
                                 ([0..<k] @ [Suc k..<numBatches (length chunks)])))))"
proof -
  let ?n = "numBatches (length chunks)"
  let ?js = "[0..<k] @ [Suc k..<?n]"
  have k_lt: "k < ?n"
  proof (rule ccontr)
    assume "\<not> k < ?n"
    then have "length chunks \<le> k * BATCH_SIZE"
      unfolding numBatches_def by (intro ceil_div_ge) (auto simp: BATCH_SIZE_def)
    with exists show False by simp
  qed
  have in_range: "j * BATCH_SIZE < length chunks" if "j < ?n" for j
    using that unfolding numBatches_def by (intro ceil_div_less) (auto simp: BATCH_SIZE_def)
  have member: "j < ?n \<and> j \<noteq> k" if "j \<in> set ?js" for j
    using that k_lt by auto
  have outcome: "batchOutcome embedApi chunks j =
                 batchRecords (batchOf chunks j) (answer embedApi chunks j)"
    if "j \<in> set ?js" for j
  proof -
    from others member [OF that] in_range obtain vs
      where "embedApi j (map c_text (batchOf chunks j)) = Inr vs" by blast
    then show ?thesis by (simp add: batchOutcome_def answer_def)
  qed
  have bad: "batchOutcome embedApi chunks k = []"
    using fails by (simp add: batchOutcome_def)
  have split: "[0..<?n] = [0..<k] @ k # [Suc k..<?n]"
    using k_lt by (metis le_add1 less_imp_le_nat upt_add_eq_append upt_conv_Cons
        add.left_neutral le_add_diff_inverse)
  have "generateEmbeddings embedApi chunks =
        concat (map (batchOutcome embedApi chunks) ([0..<k] @ k # [Suc k..<?n]))"
    by (simp only: generateEmbeddings_closed split [symmetric])
  also have "\<dots> = concat (map (batchOutcome embedApi chunks) ?js)"
    by (simp add: bad)
  also have "\<dots> = concat (map (\<lambda>j. batchRecords (batchOf chunks j)
                                       (answer embedApi chunks j)) ?js)"
    using outcome by (intro arg_cong [where f = concat] map_cong refl) blast
  finally have gen: "generateEmbeddings embedApi chunks =
        concat (map (\<lambda>j. batchRecords (batchOf chunks j) (answer embedApi chunks j)) ?js)" .
  have first: "generateEmbeddings embedApi chunks =
        concat (map (\<lambda>j. map (\<lambda>i. recordOf (batchOf chunks j ! i)
                                      (js_index (answer embedApi chunks j) i))
                            [0..<length (batchOf chunks j)]) ?js)"
    by (simp only: gen batchRecords_recordOf)
  have "map recordFields (generateEmbeddings embedApi chunks) =
        concat (map (\<lambda>j. map recordFields
                            (batchRecords (batchOf chunks j) (answer embedApi chunks j))) ?js)"
    by (simp only: gen map_concat map_map comp_def)
  also have "\<dots> = concat (map (\<lambda>j. map chunkFields (batchOf chunks j)) ?js)"
    by (simp only: batchRecords_fields)
  also have "\<dots> = map chunkFields (concat (map (batchOf chunks) ?js))"
    by (simp only: map_concat map_map comp_def)
  finally have second: "map recordFields (generateEmbeddings embedApi chunks) =
        map chunkFields (take (k * BATCH_SIZE) chunks @ drop (Suc k * BATCH_SIZE) chunks)"
    by (simp only: batches_outside [OF k_lt])
  have third: "generateEmbeddings embedApi chunks =
        map (\<lambda>(c, v). recordOf c (Some v))
          (zip (take (k * BATCH_SIZE) chunks @ drop (Suc k * BATCH_SIZE) chunks)
               (concat (map (answer embedApi chunks) ?js)))"
    if lens: "\<forall>j. j \<noteq> k \<and> j * BATCH_SIZE < length chunks \<longrightarrow>
                length (answer embedApi chunks j) = length (batchOf chunks j)"
  proof -
    have len: "length (batchOf chunks j) = length (answer embedApi chunks j)"
      if "j \<in> set ?js" for j
      using lens member [OF that] in_range by simp
    have "generateEmbeddings embedApi chunks =
          concat (map (\<lambda>j. map (\<lambda>(c, v). recordOf c (Some v))
                              (zip (batchOf chunks j) (answer embedApi chunks j))) ?js)"
      unfolding gen using len
      by (intro arg_cong [where f = concat] map_cong refl batchRecords_zip) simp
    also have "\<dots> = map (\<lambda>(c, v). recordOf c (Some v))
                       (zip (concat (map (batchOf chunks) ?js))
                            (concat (map (answer embedApi chunks) ?js)))"
      using len by (rule concat_zip)
    finally show ?thesis
      by (simp only: batches_outside [OF k_lt])
  qed
  from first second third show ?thesis by blast
qed

text \<open>
  Claim C5, at 250 chunks and a capability that fails for the second batch and answers
  the request \<open>j\<close> with the vectors \<open>[j, 0]\<close>, \<open>[j, 1]\<close>, and so on: the records of the
  chunks 0 to 99 are returned with the vectors of request 0, then those of the chunks 200
  to 249 with the vectors of request 2.
\<close>

theorem generateEmbeddings_partial_success_witness:
  "1 * BATCH_SIZE < length (map sampleChunk [0..<250])
   \<and> flakyApi 1 (map c_text (batchOf (map sampleChunk [0..<250]) 1)) = Inl ApiFailure
   \<and> generateEmbeddings flakyApi (map sampleChunk [0..<250]) =
       map (\<lambda>i. recordOf (sampleChunk i) (Some [0, real i])) [0..<100] @
       map (\<lambda>i. recordOf (sampleChunk (200 + i)) (Some [2, real i])) [0..<50]"
proof -
  let ?cs = "map sampleChunk [0..<250]"
  have h1: "1 * BATCH_SIZE < length ?cs"
    by (simp add: BATCH_SIZE_def)
  have h2: "flakyApi 1 (map c_text (batchOf ?cs 1)) = Inl ApiFailure"
    by (simp add: flakyApi_def)
  have h3: "\<forall>j. j \<noteq> 1 \<and> j * BATCH_SIZE < length ?cs \<longrightarrow>
              (\<exists>vs. flakyApi j (map c_text (batchOf ?cs j)) = Inr vs)"
    by (simp add: flakyApi_def)
  have h4: "\<forall>j. j \<noteq> 1 \<and> j * BATCH_SIZE < length ?cs \<longrightarrow>
              length (answer flakyApi ?cs j) = length (batchOf ?cs j)"
    by (simp add: flakyApi_def answer_def)
  have t: "take 100 [0..<250] = [0..<100]"
    by (subst take_upt) simp_all
  have d: "drop 200 [0..<250] = [200..<250]"
    by (subst drop_upt) simp
  have cut: "take (1 * BATCH_SIZE) ?cs @ drop (Suc 1 * BATCH_SIZE) ?cs =
             map sampleChunk [0..<100] @ map sampleChunk [200..<250]"
    by (simp only: BATCH_SIZE_def take_map drop_map t d map_append)
       (simp only: mult_1 mult_Suc t d add.right_neutral numeral_plus_numeral
          semiring_norm)
  have n: "numBatches (length ?cs) = 3"
    by (simp add: numBatches_def BATCH_SIZE_def)
  have js: "[0..<1] @ [Suc 1..<3] = [0, 2]"
    by (simp add: upt_conv_Cons)
  have len0: "length (batchOf ?cs 0) = 100"
    by (simp add: batchOf_def BATCH_SIZE_def)
  have len2: "length (batchOf ?cs 2) = 50"
    by (simp add: batchOf_def BATCH_SIZE_def)
  have a0: "answer flakyApi ?cs 0 = map (\<lambda>i. [0, real i]) [0..<100]"
    by (simp add: answer_def flakyApi_def len0)
  have a2: "answer flakyApi ?cs 2 = map (\<lambda>i. [2, real i]) [0..<50]"
    by (simp add: answer_def flakyApi_def len2)
  have shift: "[200..<250] = map (\<lambda>i. 200 + i) [0..<50]"
    using map_add_upt [of 200 50] by (simp add: add.commute)
  have "generateEmbeddings flakyApi ?cs =
        map (\<lambda>(c, v). recordOf c (Some v))
          (zip (take (1 * BATCH_SIZE) ?cs @ drop (Suc 1 * BATCH_SIZE) ?cs)
               (concat (map (answer flakyApi ?cs) ([0..<1] @ [Suc 1..<numBatches (length ?cs)]))))"
    using generateEmbeddings_partial_success [of 1 ?cs flakyApi ApiFailure, OF h1 h2 h3] h4
    by blast
  also have "\<dots> =
        map (\<lambda>(c, v). recordOf c (Some v))
          (zip (map sampleChunk [0..<100] @ map sampleChunk (map (\<lambda>i. 200 + i) [0..<50]))
               (map (\<lambda>i. [0, real i]) [0..<100] @ map (\<lambda>i. [2, real i]) [0..<50]))"
    by (simp only: cut n js a0 a2 list.map concat.simps append_Nil2 shift [symmetric])
  also have "\<dots> =
        map (\<lambda>i. recordOf (sampleChunk i) (Some [0, real i])) [0..<100] @
        map (\<lambda>i. recordOf (sampleChunk (200 + i)) (Some [2, real i])) [0..<50]"
    by (simp add: zip_append zip_map_map zip_same_conv_map comp_def del: upt_Suc)
  finally show ?thesis
    using h1 h2 by blast
qed

lemma chunkMap_find:
  "chunkMap chunks cid = find (\<lambda>chunk. c_id chunk = cid) (rev chunks)"
  unfolding chunkMap_def by (induction chunks rule: rev_induct) auto

text \<open>
  What \<^verbatim>\<open>loadEmbeddingsCache\<close> makes of one record that \<^verbatim>\<open>saveEmbeddingsCache\<close> wrote.
\<close>

lemma reconstruct_JSON_cached:
  "reconstruct chunks (JSON_cached (toCached e)) =
   JObj ([(''chunkId'', JStr (e_chunkId e))] @
         (case e_embedding e of
            None \<Rightarrow> []
          | Some v \<Rightarrow> [(''embedding'', JArr (map JSON_number v))]) @
         [(''filename'', JStr (e_filename e)),
          (''country'', JStr (e_country e)),
          (''pageNumber'', JNum (Finite (of_int (e_pageNumber e)))),
          (''text'', JStr (case find (\<lambda>chunk. c_id chunk = e_chunkId e) (rev chunks) of
                            None \<Rightarrow> []
                          | Some chunk \<Rightarrow> c_text chunk))])"
  by (simp add: reconstruct_def JSON_cached_def toCached_def chunkOf_def chunkMap_find
      split: option.splits)

lemma JSON_number_Finite: "map JSON_number (map Finite rs) = map JNum (map Finite rs)"
  by simp

lemma JSON_number_same:
  "(JSON_number x = JNum x) =
   (x \<noteq> NegativeZero \<and> x \<noteq> NotANumber \<and> x \<noteq> PlusInfinity \<and> x \<noteq> MinusInfinity)"
  by (cases x) simp_all

text \<open>
  When the stream does not write the whole text, the file is either as it was or does
  not parse; \<^verbatim>\<open>saveEmbeddingsCache\<close> returns normally in both cases, and
  \<^verbatim>\<open>loadEmbeddingsCache\<close> returns \<^verbatim>\<open>null\<close> on the broken file.
\<close>

lemma saveEmbeddingsCache_not_opened:
  "saveEmbeddingsCache embs now NotOpened file = file"
  by (simp add: saveEmbeddingsCache_def)

lemma loadEmbeddingsCache_interrupted:
  "loadEmbeddingsCache chunks (saveEmbeddingsCache embs now Interrupted file) = None"
  by (simp add: saveEmbeddingsCache_def loadEmbeddingsCache_def)

text \<open>
  Claim C6, as stated, fails: the vectors that come back are not always the vectors that
  were saved. A record whose chunk is in the chunk set and whose vector is
  \<^verbatim>\<open>[-0, NaN, 1]\<close> is loaded with the vector \<^verbatim>\<open>[0, null, 1]\<close>.
\<close>

theorem cache_roundtrip_not_identical:
  "loadEmbeddingsCache [sampleChunk 0]
     (saveEmbeddingsCache
        [sampleRecord ''chunk_0'' (Some [NegativeZero, NotANumber, Finite 1])]
        ''2025-01-01T00:00:00.000Z'' Written None) =
   Some [JObj [(''chunkId'', JStr ''chunk_0''),
               (''embedding'', JArr [JNum (Finite 0), JNull, JNum (Finite 1)]),
               (''filename'', JStr ''a.pdf''),
               (''country'', JStr ''unknown''),
               (''pageNumber'', JNum (Finite 1)),
               (''text'', JStr ''text'')]]
   \<and> JArr [JNum (Finite 0), JNull, JNum (Finite 1)] \<noteq>
       JArr (map JNum [NegativeZero, NotANumber, Finite 1])"
  by (simp add: loadEmbeddingsCache_def saveEmbeddingsCache_def reconstruct_def chunkOf_def
      chunkMap_def JSON_cached_def toCached_def sampleRecord_def sampleChunk_def
      chunkIdOf_def string_of_nat.simps digit_def)

text \<open>
  Claim C6, amended: when the stream has written the file, loading the cache that was saved
  from a list of embedding records succeeds and gives back one object per saved record, in
  order, with the chunk id, file name, country and page number of the record, and with
  its vector as \<^verbatim>\<open>JSON.stringify\<close> and \<^verbatim>\<open>JSON.parse\<close> carry it: a component that is a
  number other than negative zero, \<^verbatim>\<open>NaN\<close> and the infinities comes back as the same
  number, and only such a component does (negative zero comes back as zero, \<^verbatim>\<open>NaN\<close> and
  the infinities as \<^verbatim>\<open>null\<close>); a record without a vector comes back without one. The
  text of an object is the text of the (last) chunk with its id, and empty when the chunk
  list has no chunk with that id.
\<close>

theorem cache_roundtrip:
  "loadEmbeddingsCache chunks (saveEmbeddingsCache embs now Written file) =
     Some (map (\<lambda>e.
             JObj ([(''chunkId'', JStr (e_chunkId e))] @
                   (case e_embedding e of
                      None \<Rightarrow> []
                    | Some v \<Rightarrow> [(''embedding'', JArr (map JSON_number v))]) @
                   [(''filename'', JStr (e_filename e)),
                    (''country'', JStr (e_country e)),
                    (''pageNumber'', JNum (Finite (of_int (e_pageNumber e)))),
                    (''text'',
                     JStr (case find (\<lambda>chunk. c_id chunk = e_chunkId e) (rev chunks) of
                             None \<Rightarrow> []
                           | Some chunk \<Rightarrow> c_text chunk))])) embs)
   \<and> map JSON_number (map Finite rs) = map JNum (map Finite rs)
   \<and> ((JSON_number x = JNum x) =
        (x \<noteq> NegativeZero \<and> x \<noteq> NotANumber \<and> x \<noteq> PlusInfinity \<and> x \<noteq> MinusInfinity))"
proof -
  have "JNull \<notin> set (map (\<lambda>e. JSON_cached (toCached e)) embs)"
    by (auto simp: JSON_cached_def)
  then have "loadEmbeddingsCache chunks (saveEmbeddingsCache embs now Written file) =
        Some (map (\<lambda>e. reconstruct chunks (JSON_cached (toCached e))) embs)"
    by (simp add: loadEmbeddingsCache_def saveEmbeddingsCache_def comp_def)
  then show ?thesis
    by (simp only: reconstruct_JSON_cached JSON_number_Finite JSON_number_same simp_thms)
qed

text \<open>
  Claim C6, amended, at two records with vectors of ordinary numbers: the vectors come
  back as they were; the record of \<open>chunk_7\<close> has no live chunk and comes back with empty
  text.
\<close>

theorem cache_roundtrip_witness:
  "loadEmbeddingsCache [sampleChunk 0]
     (saveEmbeddingsCache
        [sampleRecord ''chunk_0'' (Some (map Finite [1, 2])),
         sampleRecord ''chunk_7'' (Some (map Finite [3, 4]))]
        ''2025-01-01T00:00:00.000Z'' Written None) =
   Some [JObj [(''chunkId'', JStr ''chunk_0''),
               (''embedding'', JArr (map JNum (map Finite [1, 2]))),
               (''filename'', JStr ''a.pdf''),
               (''country'', JStr ''unknown''),
               (''pageNumber'', JNum (Finite 1)),
               (''text'', JStr ''text'')],
         JObj [(''chunkId'', JStr ''chunk_7''),
               (''embedding'', JArr (map JNum (map Finite [3, 4]))),
               (''filename'', JStr ''a.pdf''),
               (''country'', JStr ''unknown''),
               (''pageNumber'', JNum (Finite 1)),
               (''text'', JStr [])]]"
  using cache_roundtrip
    [of "[sampleChunk 0]"
        "[sampleRecord ''chunk_0'' (Some (map Finite [1, 2])),
          sampleRecord ''chunk_7'' (Some (map Finite [3, 4]))]"
        "''2025-01-01T00:00:00.000Z''" None "[]" "Finite 0"]
  by (simp add: sampleRecord_def sampleChunk_def chunkIdOf_def string_of_nat.simps digit_def)

section \<open>Ranking\<close>

text \<open>
  The sort keeps the elements, orders them by descending similarity when none of them is
  \<^verbatim>\<open>NaN\<close>, and keeps records of equal similarity in the order in which they came.
\<close>

lemma js_insert_set: "set (js_insert cmp x ys) = insert x (set ys)"
  by (induction ys) auto

lemma js_sort_Nil: "js_sort cmp [] = []"
  by (simp add: js_sort_def)

lemma js_sort_Cons: "js_sort cmp (x # xs) = js_insert cmp x (js_sort cmp xs)"
  by (simp add: js_sort_def)

lemma js_sort_set: "set (js_sort cmp xs) = set xs"
  by (induction xs) (simp_all add: js_sort_Nil js_sort_Cons js_insert_set)

lemma descending_trans: "descending a b \<Longrightarrow> descending b c \<Longrightarrow> descending a c"
  unfolding descending_def
  by (cases "r_similarity a"; cases "r_similarity b"; cases "r_similarity c") auto

lemma not_positive_descending:
  "scored x \<Longrightarrow> scored y \<Longrightarrow> \<not> js_positive (bySimilarity x y) \<Longrightarrow> descending x y"
  unfolding descending_def bySimilarity_def scored_def
  by (cases "r_similarity x"; cases "r_similarity y") auto

lemma positive_descending:
  "js_positive (bySimilarity x y) \<Longrightarrow> descending y x"
  unfolding descending_def bySimilarity_def
  by (cases "r_similarity x"; cases "r_similarity y") auto

lemma positive_differs:
  "js_positive (bySimilarity x y) \<Longrightarrow> r_similarity y \<noteq> r_similarity x"
  unfolding bySimilarity_def
  by (cases "r_similarity x"; cases "r_similarity y") auto

lemma js_insert_sorted:
  "scored x \<Longrightarrow> \<forall>y\<in>set ys. scored y \<Longrightarrow> sorted_wrt descending ys \<Longrightarrow>
   sorted_wrt descending (js_insert bySimilarity x ys)"
proof (induction ys)
  case Nil
  show ?case by simp
next
  case (Cons y ys)
  show ?case
  proof (cases "js_positive (bySimilarity x y)")
    case True
    from Cons have "sorted_wrt descending (js_insert bySimilarity x ys)" by simp
    moreover have "\<forall>z\<in>set (js_insert bySimilarity x ys). descending y z"
      using Cons.prems(3) True by (auto simp: js_insert_set positive_descending)
    ultimately show ?thesis using True by simp
  next
    case False
    with Cons.prems have xy: "descending x y" by (simp add: not_positive_descending)
    then have "\<forall>z\<in>set ys. descending x z"
      using Cons.prems(3) by (auto intro: descending_trans)
    with xy False Cons.prems(3) show ?thesis by simp
  qed
qed

lemma js_sort_sorted:
  "\<forall>x\<in>set xs. scored x \<Longrightarrow> sorted_wrt descending (js_sort bySimilarity xs)"
  by (induction xs) (simp_all add: js_sort_Nil js_sort_Cons js_insert_sorted js_sort_set)

lemma js_insert_stable:
  "filter (\<lambda>r. r_similarity r = v) (js_insert bySimilarity x ys) =
   filter (\<lambda>r. r_similarity r = v) (x # ys)"
  by (induction ys) (auto dest: positive_differs)

lemma js_sort_stable:
  "filter (\<lambda>r. r_similarity r = v) (js_sort bySimilarity xs) =
   filter (\<lambda>r. r_similarity r = v) xs"
  by (induction xs) (simp_all add: js_sort_Nil js_sort_Cons js_insert_stable)

lemma js_slice_take: "js_slice xs 0 (int n) = take n xs"
  by (simp add: js_slice_def min_def)

lemma scoreRecord_chunkId: "scoreRecord q e = Inr r \<Longrightarrow> r_chunkId r = e_chunkId e"
  by (auto simp: scoreRecord_def split: sum.splits)

lemma scoreAll_chunkIds:
  "map_throwing (scoreRecord q) embs = Inr cs \<Longrightarrow> map r_chunkId cs = map e_chunkId embs"
  by (induction embs arbitrary: cs) (auto split: sum.splits dest: scoreRecord_chunkId)

lemma filter_take_prefix: "prefix (filter P (take n xs)) (filter P xs)"
  by (metis append_take_drop_id filter_append prefixI)

text \<open>
  Claim C3: whenever \<^verbatim>\<open>searchSimilarDocuments\<close> returns results for a count \<open>topK\<close> and a
  threshold \<open>minSimilarity\<close>, there are at most \<open>topK\<close> of them, each has a similarity of
  at least \<open>minSimilarity\<close>, they are sorted by descending similarity, and for every
  similarity value the results with that value are an initial part, in the original order,
  of the scored input records with that value that pass the threshold. The count \<open>topK\<close>
  ranges over the natural numbers; a negative bound would make \<^verbatim>\<open>slice\<close> count from the
  end.
\<close>

theorem searchSimilarDocuments_ranked:
  assumes "searchSimilarDocuments embedQuery query embs (int topK) minSimilarity = Inr results"
  shows "length results \<le> topK
       \<and> (\<forall>r\<in>set results. js_ge (r_similarity r) minSimilarity)
       \<and> sorted_wrt (\<lambda>a b. js_ge (r_similarity a) (r_similarity b)) results
       \<and> (\<exists>queryEmbedding candidates.
            embedQuery query = Inr queryEmbedding
          \<and> map_throwing (scoreRecord queryEmbedding) embs = Inr candidates
          \<and> map r_chunkId candidates = map e_chunkId embs
          \<and> (\<forall>v. prefix (filter (\<lambda>r. r_similarity r = v) results)
                          (filter (\<lambda>r. r_similarity r = v)
                             (filter (\<lambda>r. js_ge (r_similarity r) minSimilarity) candidates))))"
proof -
  from assms obtain queryEmbedding candidates where
    q: "embedQuery query = Inr queryEmbedding" and
    c: "map_throwing (scoreRecord queryEmbedding) embs = Inr candidates" and
    r: "results = take topK (js_sort bySimilarity
          (filter (\<lambda>r. js_ge (r_similarity r) minSimilarity) candidates))"
    by (auto simp: searchSimilarDocuments_def generateQueryEmbedding_def js_slice_take
        bySimilarity_def [abs_def] split: sum.splits)
  let ?kept = "filter (\<lambda>r. js_ge (r_similarity r) minSimilarity) candidates"
  have kept_scored: "\<forall>x\<in>set ?kept. scored x"
    by (auto simp: scored_def)
  have len: "length results \<le> topK" by (simp add: r)
  have thr: "\<forall>r\<in>set results. js_ge (r_similarity r) minSimilarity"
    unfolding r using js_sort_set [of bySimilarity ?kept] by (auto dest!: in_set_takeD)
  have srt: "sorted_wrt descending results"
    unfolding r by (intro sorted_wrt_take js_sort_sorted kept_scored)
  have ids: "map r_chunkId candidates = map e_chunkId embs"
    using c by (rule scoreAll_chunkIds)
  have stab: "prefix (filter (\<lambda>r. r_similarity r = v) results)
                     (filter (\<lambda>r. r_similarity r = v) ?kept)" for v
    unfolding r using filter_take_prefix [of "\<lambda>r. r_similarity r = v" topK
        "js_sort bySimilarity ?kept"]
    by (simp only: js_sort_stable)
  from len thr srt q c ids stab show ?thesis
    unfolding descending_def [abs_def] by blast
qed

lemma cosine_2d:
  "cosineSimilarity [a1, a2] (Some [b1, b2]) =
     (if sqrt (a1 * a1 + a2 * a2) * sqrt (b1 * b1 + b2 * b2) = 0 then Inr NaN
      else Inr (Num ((a1 * b1 + a2 * b2) /
                  (sqrt (a1 * a1 + a2 * a2) * sqrt (b1 * b1 + b2 * b2)))))"
proof -
  have "[0..<length [a1, a2]] = [0, Suc 0]" by (simp add: upt_rec)
  then show ?thesis by (simp add: cosineSimilarity_def)
qed

text \<open>
  Claim C3, at five records with the similarities 0, 1, \<^verbatim>\<open>NaN\<close>, -1 and 1, the count 2 and
  the threshold -1/2: the two records of similarity 1 are returned in their input order.
\<close>

theorem searchSimilarDocuments_ranked_witness:
  "searchSimilarDocuments (\<lambda>q. Inr [1, 0]) ''housing''
     [sampleRecord ''chunk_0'' (Some [0, 1]), sampleRecord ''chunk_1'' (Some [1, 0]),
      sampleRecord ''chunk_2'' (Some [0, 0]), sampleRecord ''chunk_3'' (Some [-1, 0]),
      sampleRecord ''chunk_4'' (Some [1, 0])] (int 2) (Num (-1/2))
     = Inr [sampleResult ''chunk_1'' 1, sampleResult ''chunk_4'' 1]
   \<and> length [sampleResult ''chunk_1'' 1, sampleResult ''chunk_4'' 1] \<le> 2
   \<and> sorted_wrt (\<lambda>a b. js_ge (r_similarity a) (r_similarity b))
        [sampleResult ''chunk_1'' 1, sampleResult ''chunk_4'' 1]"
proof -
  have run: "searchSimilarDocuments (\<lambda>q. Inr [1, 0]) ''housing''
     [sampleRecord ''chunk_0'' (Some [0, 1]), sampleRecord ''chunk_1'' (Some [1, 0]),
      sampleRecord ''chunk_2'' (Some [0, 0]), sampleRecord ''chunk_3'' (Some [-1, 0]),
      sampleRecord ''chunk_4'' (Some [1, 0])] (int 2) (Num (-1/2))
     = Inr [sampleResult ''chunk_1'' 1, sampleResult ''chunk_4'' 1]"
    by (simp add: searchSimilarDocuments_def generateQueryEmbedding_def scoreRecord_def
        cosine_2d sampleRecord_def sampleResult_def js_sort_def js_slice_def)
  from searchSimilarDocuments_ranked [OF run] run show ?thesis by blast
qed

section \<open>The case store\<close>

text \<open>
Both operations that write a case store it under its own id.
\<close>

lemma createCase_keyed:
  "keyed_by_id st \<Longrightarrow> keyed_by_id (snd (createCase cn n a e s uuid now st))"
  by (auto simp: keyed_by_id_def createCase_def Let_def)

lemma updateCase_keyed:
  "keyed_by_id st \<Longrightarrow> keyed_by_id (snd (updateCase cid updates now st))"
  by (auto simp: keyed_by_id_def updateCase_def Let_def split: option.splits)

text \<open>
  Claim C10: \<^verbatim>\<open>updateCase\<close> on a missing id returns \<^verbatim>\<open>undefined\<close> and leaves the
  store as it is. On a stored case it returns the updated case and stores it under the
  same key, and nothing else in the store changes; the id of the updated case is the key,
  whatever the patch says, which is the id of the stored case in a store that keeps every
  case under its own id; \<^verbatim>\<open>updatedAt\<close> is the current time, and every other field is the
  patched value if the patch has one and the stored value otherwise.
\<close>

theorem updateCase_frame:
  "(cases st cid = None \<longrightarrow> updateCase cid updates now st = (None, st))
   \<and> (\<forall>existing. cases st cid = Some existing \<longrightarrow>
        (\<exists>updated.
           updateCase cid updates now st =
             (Some updated, st\<lparr>cases := (cases st)(cid \<mapsto> updated)\<rparr>)
         \<and> case_id updated = cid
         \<and> (keyed_by_id st \<longrightarrow> case_id updated = case_id existing)
         \<and> updatedAt updated = now
         \<and> caseNumber updated = js_spread (caseNumber existing) (patch_caseNumber updates)
         \<and> case_notes updated = js_spread (case_notes existing) (patch_notes updates)
         \<and> audioTranscription updated =
             js_spread (audioTranscription existing) (patch_audioTranscription updates)
         \<and> extractedEntities updated =
             js_spread (extractedEntities existing) (patch_extractedEntities updates)
         \<and> status updated = js_spread (status existing) (patch_status updates)
         \<and> createdAt updated = js_spread (createdAt existing) (patch_createdAt updates)))"
  by (auto simp: updateCase_def spreadCase_def Let_def keyed_by_id_def)

lemma sampleStore_keyed: "keyed_by_id sampleStore"
  by (simp add: keyed_by_id_def sampleStore_def sampleCase_def)

text \<open>
  Claim C10, at a store with one case and a patch that sets another id, a status and a
  time stamp.
\<close>

theorem updateCase_frame_witness:
  "keyed_by_id sampleStore
   \<and> updateCase ''c1'' samplePatch ''t1'' sampleStore =
       (Some (sampleCase\<lparr>status := Completed, updatedAt := ''t1''\<rparr>),
        sampleStore\<lparr>cases := [''c1'' \<mapsto> sampleCase\<lparr>status := Completed, updatedAt := ''t1''\<rparr>]\<rparr>)
   \<and> updateCase ''c2'' samplePatch ''t1'' sampleStore = (None, sampleStore)"
proof -
  have found: "cases sampleStore ''c1'' = Some sampleCase"
    by (simp add: sampleStore_def)
  have missing: "cases sampleStore ''c2'' = None"
    by (simp add: sampleStore_def)
  from updateCase_frame [of sampleStore "''c1''" samplePatch "''t1''"] found
    sampleStore_keyed
  obtain updated where u:
    "updateCase ''c1'' samplePatch ''t1'' sampleStore =
       (Some updated, sampleStore\<lparr>cases := (cases sampleStore)(''c1'' \<mapsto> updated)\<rparr>)"
    "case_id updated = case_id sampleCase" "updatedAt updated = ''t1''"
    "caseNumber updated = js_spread (caseNumber sampleCase) (patch_caseNumber samplePatch)"
    "case_notes updated = js_spread (case_notes sampleCase) (patch_notes samplePatch)"
    "audioTranscription updated =
       js_spread (audioTranscription sampleCase) (patch_audioTranscription samplePatch)"
    "extractedEntities updated =
       js_spread (extractedEntities sampleCase) (patch_extractedEntities samplePatch)"
    "status updated = js_spread (status sampleCase) (patch_status samplePatch)"
    "createdAt updated = js_spread (createdAt sampleCase) (patch_createdAt samplePatch)"
    by blast
  have "updated = sampleCase\<lparr>status := Completed, updatedAt := ''t1''\<rparr>"
    using u(2-9) by (simp add: samplePatch_def js_spread_def)
  with u(1) have first:
    "updateCase ''c1'' samplePatch ''t1'' sampleStore =
       (Some (sampleCase\<lparr>status := Completed, updatedAt := ''t1''\<rparr>),
        sampleStore\<lparr>cases := [''c1'' \<mapsto> sampleCase\<lparr>status := Completed, updatedAt := ''t1''\<rparr>]\<rparr>)"
    by (simp add: sampleStore_def)
  from updateCase_frame [of sampleStore "''c2''" samplePatch "''t1''"] missing
  have "updateCase ''c2'' samplePatch ''t1'' sampleStore = (None, sampleStore)" by blast
  with first sampleStore_keyed show ?thesis by blast
qed

section \<open>Report generation\<close>






lemma sampleCase_tasks:
  "rightsCategories sampleCase =
     [(Health, ''medical rights healthcare access treatment for diabetes in Switzerland''),
      (Housing, ''housing accommodation rights refugees asylum seekers in Switzerland'')]"
  by (simp add: rightsCategories_def sampleCase_def js_or_def Let_def)

lemma sampleEnv_analyse:
  "analyseCategory (env_embeddings (sampleEnv outcome)) (env_embedQuery (sampleEnv outcome))
     (env_createCompletion (sampleEnv outcome)) (env_searchWeb (sampleEnv outcome)) c (t, q) =
   (case outcome t of
      RequestFails \<Rightarrow> Inl ApiFailure
    | NoContent \<Rightarrow> Inr None
    | Unparsable \<Rightarrow> Inl SyntaxError
    | Parsed analysis \<Rightarrow>
        if analysis = JNull then Inl TypeError
        else Inr (Some
          \<lparr>ra_rightType = t,
           ra_summary = js_get analysis ''summary'',
           ra_legalBasis = js_get analysis ''legalBasis'',
           ra_citation = js_get analysis ''citation'',
           ra_complications = js_or_empty_array (js_get analysis ''complications''),
           ra_risks = js_or_empty_array (js_get analysis ''risks''),
           ra_similarCases = [],
           ra_confidenceLevel = js_get analysis ''confidenceLevel''\<rparr>))"
  by (simp add: analyseCategory_def sampleEnv_def split: completion.splits)


text \<open>
  A category whose analysis throws ends the whole request with the answer 500 and an
  unchanged store. A category whose completion has no content is dropped alone: the
  handler returns \<^verbatim>\<open>null\<close> for it and filters the \<^verbatim>\<open>null\<close> results.
\<close>

lemma map_throwing_rejects:
  "x \<in> set xs \<Longrightarrow> f x = Inl err \<Longrightarrow> \<exists>err'. map_throwing f xs = Inl err'"
  by (induction xs) (auto split: sum.splits)

lemma generateReport_failure_aborts:
  assumes "cid \<noteq> []" and "getCase cid st = Some c"
    and "task \<in> set (rightsCategories c)"
    and "analyseCategory (env_embeddings env) (env_embedQuery env) (env_createCompletion env)
           (env_searchWeb env) c task = Inl err"
  shows "generateReport env (Some cid) st = (Status500, st)"
proof -
  from assms(3,4) obtain err' where
    "map_throwing (analyseCategory (env_embeddings env) (env_embedQuery env)
        (env_createCompletion env) (env_searchWeb env) c) (rightsCategories c) = Inl err'"
    using map_throwing_rejects by fastforce
  with assms(1,2) show ?thesis by (simp add: generateReport_def)
qed

lemma generateReport_empty_content_dropped:
  "\<exists>report st'.
     generateReport (sampleEnv healthNoContent) (Some ''c1'') sampleStore = (Status200 report, st')
   \<and> map ra_rightType (rightsAnalysis report) = [Housing]"
  by (simp add: generateReport_def getCase_def sampleStore_def sampleCase_tasks
      sampleEnv_analyse healthNoContent_def sampleAnalysis_def createReport_def Let_def
      split: prod.splits)

text \<open>
  Claim C1 reads: when the structured output of the generation fails to parse for one
  category while the others succeed, that category is dropped from the report, the report
  holds every other analysed category, and the generation does not abort. In the handler
  \<^verbatim>\<open>JSON.parse\<close> is not guarded: for the case with \<open>medicalNeeds = ["diabetes"]\<close>, an
  unparsable answer for health and a valid answer for housing, the request is answered
  with 500 and no report is stored.
\<close>

theorem generateReport_unparsable_aborts:
  "map fst (rightsCategories sampleCase) = [Health, Housing]
   \<and> generateReport (sampleEnv healthUnparsable) (Some ''c1'') sampleStore =
       (Status500, sampleStore)"
  by (simp add: generateReport_def getCase_def sampleStore_def sampleCase_tasks
      sampleEnv_analyse healthUnparsable_def)

section \<open>Serving documents\<close>

text \<open>
  Claim C8 reads: a request whose resolved path lies outside the document root is rejected
  with an access-denied answer. The handler compares the normalised path with the root as
  strings: with the working directory \<open>/app\<close> the file name \<open>../data-private/x.pdf\<close>
  resolves to \<open>/app/data-private/x.pdf\<close>, which is outside \<open>/app/data\<close> and begins with
  the same characters, and the file is sent.
\<close>

theorem serveDocument_sibling_directory:
  "serveDocument ''/app'' (\<lambda>p. p = ''/app/data-private/x.pdf'') ''../data-private/x.pdf''
     = SendFile ''/app/data-private/x.pdf''
   \<and> \<not> insideDirectory ''/app/data'' ''/app/data-private/x.pdf''"
  by (simp add: serveDocument_def posix_join_def posix_normalize_def startsWith_def
      insideDirectory_def segments_def Let_def)

text \<open>
A path that leaves the root through a name without that beginning is rejected.
\<close>

lemma serveDocument_parent_rejected:
  "serveDocument ''/app'' existsSync ''../secret.pdf'' = Forbidden403"
  by (simp add: serveDocument_def posix_join_def posix_normalize_def startsWith_def Let_def)

end
